theory Spec2Isabelle
  imports Complex_Main
begin

section \<open>Zone-2 cardiac drift analyzer (zone2-analyzer.py)\<close>

text \<open>
  A shallow embedding of the four functions of \<^verbatim>\<open>zone2-analyzer.py\<close>.
  A pandas DataFrame is a list of rows in index order; a grouped or joined frame is
  an association list from the index (the speed bucket) to a record of its columns.
  Python floats are read as real numbers, so rounding error is outside the model,
  but for the weighted average of line 71, which is given in double precision as well.
  Where the source itself computes a NaN or an infinity on finite input (the standard
  deviation of a single sample, a division by zero) the model says so: the column
  holds \<open>None\<close>, or the value pandas goes on to compute from it.
  Strings are ASCII. The Student-t quantile \<^verbatim>\<open>scipy.stats.t.ppf\<close> is a parameter.
\<close>

subsection \<open>Rendering numbers (str, round and the .1f format)\<close>

definition digit_char :: "nat \<Rightarrow> char" where
  "digit_char d = char_of (48 + d)"

function show_nat :: "nat \<Rightarrow> string" where
  "show_nat n = (if n < 10 then [digit_char n] else show_nat (n div 10) @ [digit_char (n mod 10)])"
  by pat_completeness auto
termination
  by (relation "measure id") auto

definition show_int :: "int \<Rightarrow> string" where
  "show_int i = (if i < 0 then CHR ''-'' # show_nat (nat (- i)) else show_nat (nat i))"

text \<open>Rounding to the nearest integer, a tie going to the even neighbour.\<close>

definition round_half_even :: "real \<Rightarrow> int" where
  "round_half_even x =
     (let f = \<lfloor>x\<rfloor>; d = x - of_int f
      in if d < 1 / 2 then f
         else if 1 / 2 < d then f + 1
         else if even f then f else f + 1)"

text \<open>\<^verbatim>\<open>round(x, 1)\<close>.\<close>

definition round1 :: "real \<Rightarrow> real" where
  "round1 x = of_int (round_half_even (x * 10)) / 10"

text \<open>\<^verbatim>\<open>f"{x:.1f}"\<close>.\<close>

definition fmt_1f :: "real \<Rightarrow> string" where
  "fmt_1f x =
     (let q = nat (round_half_even (\<bar>x\<bar> * 10))
      in (if x < 0 then ''-'' else '''') @ show_nat (q div 10) @ ''.'' @ show_nat (q mod 10))"

subsection \<open>The drift table and the decision record\<close>

text \<open>
  One row of the frame \<^verbatim>\<open>calculate_cardiac_drift_in_bins\<close> returns: the columns
  \<^verbatim>\<open>HR drift (BPM)\<close>, \<^verbatim>\<open>HR drift (%)\<close>, \<^verbatim>\<open>HR drift CI(95%) width\<close> and
  \<^verbatim>\<open>bin_count\<close>. The percentage is \<open>None\<close> where the source divides by a
  second-quarter mean of zero (pandas stores an infinity or a NaN there).
\<close>

record drift_row =
  hr_drift_bpm :: real
  hr_drift_pct :: "real option"
  hr_drift_ci_width :: real
  bin_count :: nat

type_synonym drift_table = "(real \<times> drift_row) list"

text \<open>
  The dictionary \<^verbatim>\<open>generate_workout_decisions\<close> returns, a field a key. The keys
  \<^verbatim>\<open>decision\<close> and \<^verbatim>\<open>notes\<close> are the fields \<open>decision_label\<close> and
  \<open>decision_notes\<close>; \<^verbatim>\<open>drift_details\<close> lists, for each bucket, its drift and
  its count.
\<close>

record decision =
  date :: string
  duration_min :: int
  avg_drift_bpm :: real
  drift_details :: "(real \<times> real \<times> nat) list"
  fitness_category :: string
  decision_label :: string
  next_duration_min :: int
  paces_analyzed :: "real list"
  decision_notes :: string

subsection \<open>generate_workout_decisions\<close>

text \<open>
  Line 71: \<^verbatim>\<open>(drift * (bin_count / bin_count.sum())).sum()\<close>. pandas does not raise
  on a zero total: over no rows both sums are 0, and over rows whose counts are all 0
  every weight is the NaN 0/0, which \<^verbatim>\<open>sum()\<close> skips, so the result is 0 as well.
  \<open>avg_drift_of\<close> is the value of the line without rounding; \<open>avg_drift_float\<close>
  below is its value in double precision.
\<close>

definition bin_count_sum :: "drift_table \<Rightarrow> nat" where
  "bin_count_sum drift_results = sum_list (map (\<lambda>(pace, r). bin_count r) drift_results)"

definition avg_drift_of :: "drift_table \<Rightarrow> real" where
  "avg_drift_of drift_results =
     (if bin_count_sum drift_results = 0 then 0
      else sum_list (map (\<lambda>(pace, r).
             hr_drift_bpm r * (real (bin_count r) / real (bin_count_sum drift_results)))
           drift_results))"

definition category_of :: "real \<Rightarrow> string" where
  "category_of avg_drift =
     (if avg_drift < 3 then ''Elite''
      else if avg_drift < 4 then ''Excellent''
      else if avg_drift < 6 then ''Good''
      else if avg_drift < 8 then ''Fair''
      else ''Poor'')"

text \<open>The second ladder: the action, the next duration and the note.\<close>

definition make_decision :: "real \<Rightarrow> int \<Rightarrow> string \<times> int \<times> string" where
  "make_decision avg_drift duration =
     (if avg_drift < 3 then
        (''extend much'', duration + 10,
         ''Drift '' @ fmt_1f avg_drift @ '' bpm is super good. Ready to add 10 minutes.'')
      else if avg_drift \<le> 5 then
        (''extend'', duration + 5,
         ''Drift '' @ fmt_1f avg_drift @ '' bpm is good. Ready to add 5 minutes.'')
      else if avg_drift \<le> 8 then
        (''maintain'', duration,
         ''Drift '' @ fmt_1f avg_drift @ '' bpm. Keep building base at ''
           @ show_int duration @ '' min.'')
      else
        (''reduce'', duration - 5,
         ''Drift '' @ fmt_1f avg_drift @ '' bpm is high. Drop to ''
           @ show_int (duration - 5) @ '' min and rebuild.''))"

definition generate_workout_decisions :: "drift_table \<Rightarrow> int \<Rightarrow> string \<Rightarrow> decision" where
  "generate_workout_decisions drift_results duration dt =
     (let avg_drift = avg_drift_of drift_results;
          category = category_of avg_drift;
          (dec, next_duration, nts) = make_decision avg_drift duration
      in \<lparr> date = dt,
           duration_min = duration,
           avg_drift_bpm = round1 avg_drift,
           drift_details = map (\<lambda>(pace, r). (pace, hr_drift_bpm r, bin_count r)) drift_results,
           fitness_category = category,
           decision_label = dec,
           next_duration_min = next_duration,
           paces_analyzed = map fst drift_results,
           decision_notes = nts \<rparr>)"

subsection \<open>Line 71 in double precision\<close>

text \<open>
  The exponent of a positive number: \<open>binade x\<close> is the integer \<open>e\<close> with \<open>x\<close> from
  \<open>2 powi e\<close> up to, not including, \<open>2 powi (e + 1)\<close>.
\<close>

function exp_up :: "real \<Rightarrow> int" where
  "exp_up x = (if 2 \<le> x then exp_up (x / 2) + 1 else 0)"
  by pat_completeness auto
termination
proof (relation "measure (\<lambda>x. nat \<lfloor>x\<rfloor>)")
  show "wf (measure (\<lambda>x::real. nat \<lfloor>x\<rfloor>))" by simp
next
  fix x :: real
  assume "2 \<le> x"
  then have "\<lfloor>x / 2\<rfloor> < \<lfloor>x\<rfloor>" and "0 < \<lfloor>x\<rfloor>" by linarith+
  then show "(x / 2, x) \<in> measure (\<lambda>x. nat \<lfloor>x\<rfloor>)" by simp
qed

function exp_down :: "real \<Rightarrow> int" where
  "exp_down x = (if 0 < x \<and> x < 1 then exp_down (2 * x) - 1 else 0)"
  by pat_completeness auto
termination
proof (relation "measure (\<lambda>x. nat \<lceil>1 / x\<rceil>)")
  show "wf (measure (\<lambda>x::real. nat \<lceil>1 / x\<rceil>))" by simp
next
  fix x :: real
  assume a: "0 < x \<and> x < 1"
  define y where "y = 1 / x"
  have y1: "1 < y" using a by (simp add: y_def)
  have c2: "2 \<le> \<lceil>y\<rceil>" using y1 by linarith
  have "y / 2 \<le> of_int \<lceil>y\<rceil> / 2" by (simp add: divide_right_mono)
  also have "\<dots> \<le> of_int (\<lceil>y\<rceil> - 1)" using c2 by simp
  finally have "\<lceil>y / 2\<rceil> \<le> \<lceil>y\<rceil> - 1" by (rule ceiling_le)
  moreover have "i \<le> j - 1 \<Longrightarrow> i < j" for i j :: int by simp
  ultimately have c: "\<lceil>y / 2\<rceil> < \<lceil>y\<rceil>" by blast
  have p: "0 < \<lceil>y\<rceil>" using c2 by simp
  have eq: "1 / (2 * x) = y / 2" by (simp add: y_def)
  have "nat \<lceil>y / 2\<rceil> < nat \<lceil>y\<rceil>"
    using c p by (simp only: nat_mono_iff)
  then show "(2 * x, x) \<in> measure (\<lambda>x. nat \<lceil>1 / x\<rceil>)"
    unfolding in_measure eq y_def .
qed

declare exp_up.simps [simp del]
declare exp_down.simps [simp del]

definition binade :: "real \<Rightarrow> int" where
  "binade x = (if 1 \<le> x then exp_up x else exp_down x)"

text \<open>
  Rounding to the nearest number of 53 significant bits, a tie going to the even
  one. This is what an operation on doubles does to its exact result wherever that
  result is in the normal range, neither subnormal nor beyond the largest double.
\<close>

definition fl64 :: "real \<Rightarrow> real" where
  "fl64 x =
     (if x = 0 then 0
      else (let q = 2 powi (binade \<bar>x\<bar> - 52)
            in of_int (round_half_even (x / q)) * q))"

definition unit_roundoff :: real where
  "unit_roundoff = 1 / 2 ^ 53"

text \<open>
  The column \<^verbatim>\<open>drift * (bin_count / bin_count.sum())\<close>: the counts and their sum
  are integers, each quotient is rounded, and so is each product.
\<close>

definition weighted_products :: "drift_table \<Rightarrow> real list" where
  "weighted_products drift_results =
     map (\<lambda>(pace, r).
            fl64 (hr_drift_bpm r * fl64 (real (bin_count r) / real (bin_count_sum drift_results))))
       drift_results"

text \<open>
  \<^verbatim>\<open>sum()\<close> adds the products two at a time and rounds every sum. The order is the
  library's: numpy adds fewer than eight numbers from left to right and, from eight
  on, keeps eight running sums that it adds in pairs. \<open>float_sum xs s\<close> holds when
  \<open>s\<close> is what adding the numbers of \<open>xs\<close> gives in some order and under some
  bracketing; \<open>avg_drift_float\<close> adds from left to right. The sum starts from 0, and
  0 plus the first product is that product.
\<close>

inductive float_sum :: "real list \<Rightarrow> real \<Rightarrow> bool" where
  one: "float_sum [x] x"
| add: "float_sum xs a \<Longrightarrow> float_sum ys b \<Longrightarrow> float_sum (xs @ ys) (fl64 (a + b))"
| swap: "float_sum (xs @ x # y # ys) s \<Longrightarrow> float_sum (xs @ y # x # ys) s"

definition avg_drift_float :: "drift_table \<Rightarrow> real" where
  "avg_drift_float drift_results =
     (if bin_count_sum drift_results = 0 then 0
      else (case weighted_products drift_results of
              [] \<Rightarrow> 0
            | p # ps \<Rightarrow> foldl (\<lambda>acc x. fl64 (acc + x)) p ps))"

subsection \<open>calculate_cardiac_drift_in_bins\<close>

text \<open>The two columns kept on line 27: \<^verbatim>\<open>HR (bpm)\<close> and \<^verbatim>\<open>Speed (km/h)\<close>.\<close>

record sample =
  hr :: real
  speed :: real

text \<open>Line 29: \<^verbatim>\<open>(speed // 0.5) * 0.5\<close>.\<close>

definition speed_bin :: "real \<Rightarrow> real" where
  "speed_bin v = of_int \<lfloor>v / (1 / 2)\<rfloor> * (1 / 2)"

definition bin_speeds :: "sample list \<Rightarrow> sample list" where
  "bin_speeds workout_data = map (\<lambda>s. s\<lparr>speed := speed_bin (speed s)\<rparr>) workout_data"

text \<open>
  Lines 31 and 32: \<^verbatim>\<open>iloc[n//4:n//2]\<close> and \<^verbatim>\<open>iloc[3 * n//4:]\<close>, where
  \<^verbatim>\<open>3 * n//4\<close> is \<^verbatim>\<open>(3 * n)//4\<close>. A slice with bounds that are not negative
  keeps the rows from the first bound up to, not including, the second.
\<close>

definition iloc :: "nat \<Rightarrow> nat \<Rightarrow> 'a list \<Rightarrow> 'a list" where
  "iloc a b xs = drop a (take b xs)"

definition Q2 :: "'a list \<Rightarrow> 'a list" where
  "Q2 workout_data = (let n = length workout_data in iloc (n div 4) (n div 2) workout_data)"

definition Q4 :: "'a list \<Rightarrow> 'a list" where
  "Q4 workout_data = (let n = length workout_data in drop (3 * n div 4) workout_data)"

text \<open>
  \<^verbatim>\<open>groupby("Speed (km/h)")\<close>: the keys in ascending order, each with the heart
  rates of its rows.
\<close>

definition group_keys :: "sample list \<Rightarrow> real list" where
  "group_keys quarter = sort (remdups (map speed quarter))"

definition group_hr :: "sample list \<Rightarrow> real \<Rightarrow> real list" where
  "group_hr quarter k = map hr (filter (\<lambda>s. speed s = k) quarter)"

definition mean :: "real list \<Rightarrow> real" where
  "mean xs = sum_list xs / real (length xs)"

text \<open>\<^verbatim>\<open>std()\<close> divides by the count less one, and is NaN for a single value.\<close>

definition std :: "real list \<Rightarrow> real option" where
  "std xs =
     (if length xs \<le> 1 then None
      else Some (sqrt (sum_list (map (\<lambda>x. (x - mean xs)\<^sup>2) xs) / real (length xs - 1))))"

text \<open>
  One row of \<^verbatim>\<open>quarter_results\<close>: the columns \<^verbatim>\<open>HR (bpm) AVG\<close>,
  \<^verbatim>\<open>bin_count\<close>, \<^verbatim>\<open>HR (bpm) stddev\<close> and \<^verbatim>\<open>conf_interval_95_width\<close>;
  \<open>None\<close> is a NaN.
\<close>

record quarter_row =
  hr_avg :: real
  bin_count_q :: nat
  hr_stddev :: "real option"
  conf_interval_95_width :: "real option"

definition quarter_row_of :: "(real \<Rightarrow> int \<Rightarrow> real) \<Rightarrow> real list \<Rightarrow> quarter_row" where
  "quarter_row_of t_ppf hrs =
     \<lparr> hr_avg = mean hrs,
       bin_count_q = length hrs,
       hr_stddev = std hrs,
       conf_interval_95_width =
         (case std hrs of
            None \<Rightarrow> None
          | Some sd \<Rightarrow>
              Some (2 * t_ppf (975 / 1000) (int (length hrs) - 1) * (sd / sqrt (real (length hrs))))) \<rparr>"

text \<open>Line 48; a comparison with a NaN is false.\<close>

definition reliable :: "quarter_row \<Rightarrow> bool" where
  "reliable r =
     ((case conf_interval_95_width r of None \<Rightarrow> False | Some w \<Rightarrow> w < 1) \<and> 25 < bin_count_q r)"

definition quarter_analysis ::
  "(real \<Rightarrow> int \<Rightarrow> real) \<Rightarrow> sample list \<Rightarrow> (real \<times> quarter_row) list" where
  "quarter_analysis t_ppf quarter =
     filter (\<lambda>(k, r). reliable r)
       (map (\<lambda>k. (k, quarter_row_of t_ppf (group_hr quarter k))) (group_keys quarter))"

text \<open>
  Lines 52 to 57, for a row that \<^verbatim>\<open>dropna()\<close> keeps: no column of either quarter
  is a NaN.
\<close>

definition merged_row :: "quarter_row \<Rightarrow> quarter_row \<Rightarrow> drift_row option" where
  "merged_row r2 r4 =
     (case (hr_stddev r2, conf_interval_95_width r2, hr_stddev r4, conf_interval_95_width r4) of
        (Some sd2, Some w2, Some sd4, Some w4) \<Rightarrow>
          Some \<lparr> hr_drift_bpm = hr_avg r4 - hr_avg r2,
                 hr_drift_pct =
                   (if hr_avg r2 = 0 then None else Some ((hr_avg r4 - hr_avg r2) / hr_avg r2)),
                 hr_drift_ci_width = sqrt (w2\<^sup>2 + w4\<^sup>2),
                 bin_count = bin_count_q r2 + bin_count_q r4 \<rparr>
      | _ \<Rightarrow> None)"

text \<open>
  Line 51: the left join on the bucket, then \<^verbatim>\<open>dropna()\<close>, which drops a row of
  the left frame with no partner in the right one (its right columns are NaN).
\<close>

fun join_dropna ::
  "(real \<times> quarter_row) list \<Rightarrow> (real \<times> quarter_row) list \<Rightarrow> drift_table" where
  "join_dropna [] right = []"
| "join_dropna ((k, r2) # left) right =
     (case map_of right k of
        None \<Rightarrow> join_dropna left right
      | Some r4 \<Rightarrow>
          (case merged_row r2 r4 of
             None \<Rightarrow> join_dropna left right
           | Some d \<Rightarrow> (k, d) # join_dropna left right))"

definition calculate_cardiac_drift_in_bins ::
  "(real \<Rightarrow> int \<Rightarrow> real) \<Rightarrow> sample list \<Rightarrow> drift_table" where
  "calculate_cardiac_drift_in_bins t_ppf workout_data =
     (let binned = bin_speeds workout_data;
          results0 = quarter_analysis t_ppf (Q2 binned);
          results1 = quarter_analysis t_ppf (Q4 binned)
      in join_dropna results0 results1)"

subsection \<open>get_minutes_from_duration_string\<close>

datatype py_error = ValueError | IndexError | JSONDecodeError | AttributeError

text \<open>\<^verbatim>\<open>str.split(sep)\<close>: the fields between the separators, at least one.\<close>

fun split_on :: "char \<Rightarrow> string \<Rightarrow> string list" where
  "split_on sep [] = [[]]"
| "split_on sep (c # cs) =
     (if c = sep then [] # split_on sep cs
      else (case split_on sep cs of
              [] \<Rightarrow> [[c]]
            | f # fs \<Rightarrow> (c # f) # fs))"

text \<open>
  \<^verbatim>\<open>int(s)\<close> on an ASCII string: white space around the literal is dropped, one
  sign may lead, and the digits may be grouped by single underscores. From
  CPython 3.11 a literal of more than 4300 digits is refused.
\<close>

definition is_space :: "char \<Rightarrow> bool" where
  "is_space c = (c \<in> set [CHR '' '', CHR 0x09, CHR 0x0A, CHR 0x0B, CHR 0x0C, CHR 0x0D])"

definition is_digit :: "char \<Rightarrow> bool" where
  "is_digit c = (48 \<le> (of_char c :: nat) \<and> (of_char c :: nat) \<le> 57)"

definition strip :: "string \<Rightarrow> string" where
  "strip s = rev (dropWhile is_space (rev (dropWhile is_space s)))"

text \<open>The digits of a literal, or \<open>None\<close> where an underscore or another character is misplaced.\<close>

fun literal_digits :: "string \<Rightarrow> string option" where
  "literal_digits [] = Some []"
| "literal_digits [c] = (if is_digit c then Some [c] else None)"
| "literal_digits (c # d # cs) =
     (if is_digit c then
        (if d = CHR ''_'' then
           (case cs of
              [] \<Rightarrow> None
            | e # es \<Rightarrow> if is_digit e then map_option ((#) c) (literal_digits cs) else None)
         else map_option ((#) c) (literal_digits (d # cs)))
      else None)"

definition digit_val :: "char \<Rightarrow> nat" where
  "digit_val c = of_char c - 48"

definition decimal :: "string \<Rightarrow> nat" where
  "decimal ds = foldl (\<lambda>acc c. 10 * acc + digit_val c) 0 ds"

definition py_int :: "string \<Rightarrow> py_error + int" where
  "py_int s =
     (let t = strip s;
          (neg, body) = (case t of
                           c # cs \<Rightarrow> if c = CHR ''-'' then (True, cs)
                                     else if c = CHR ''+'' then (False, cs)
                                     else (False, t)
                         | [] \<Rightarrow> (False, t))
      in case literal_digits body of
           None \<Rightarrow> Inl ValueError
         | Some ds \<Rightarrow>
             if ds = [] \<or> 4300 < length ds then Inl ValueError
             else Inr (if neg then - int (decimal ds) else int (decimal ds)))"

text \<open>
  Lines 124 and 125. The first field is converted before the second is read, so a
  string with no colon raises the error of \<^verbatim>\<open>int\<close> on it if there is one, and
  IndexError otherwise.
\<close>

definition get_minutes_from_duration_string :: "string \<Rightarrow> py_error + int" where
  "get_minutes_from_duration_string duration_string =
     (case split_on CHR '':'' duration_string of
        [] \<Rightarrow> Inl IndexError
      | d0 # rest \<Rightarrow>
          (case py_int d0 of
             Inl e \<Rightarrow> Inl e
           | Inr h \<Rightarrow>
               (case rest of
                  [] \<Rightarrow> Inl IndexError
                | d1 # _ \<Rightarrow>
                    (case py_int d1 of
                       Inl e \<Rightarrow> Inl e
                     | Inr m \<Rightarrow> Inr (h * 60 + m)))))"

subsection \<open>save_decision_to_json\<close>

text \<open>
  What a path holds: text that is not JSON, a JSON value that is not an array, or
  an array of entries. An entry is a JSON value; a decision is passed as the value
  \<^verbatim>\<open>json.dump\<close> writes for it. The file system maps a path to what it holds.
\<close>

datatype 'e file_content = NotJson | JsonOther | JsonList "'e list"

type_synonym 'e files = "string \<rightharpoonup> 'e file_content"

text \<open>The function returns the files as it leaves them and the line it prints.\<close>

definition save_decision_to_json ::
  "'e \<Rightarrow> string \<Rightarrow> 'e files \<Rightarrow> py_error + ('e files \<times> string)" where
  "save_decision_to_json decision file_path fs =
     (case (case fs file_path of
              None \<Rightarrow> Inr []
            | Some NotJson \<Rightarrow> Inl JSONDecodeError
            | Some JsonOther \<Rightarrow> Inl AttributeError
            | Some (JsonList stored) \<Rightarrow> Inr stored) of
        Inl e \<Rightarrow> Inl e
      | Inr history \<Rightarrow>
          Inr (fs(file_path \<mapsto> JsonList (history @ [decision])),
               ''Changes were saved to '' @ file_path))"

section \<open>Auxiliary facts\<close>

subsection \<open>Slices\<close>

lemma iloc_nth: "b \<le> length xs \<Longrightarrow> iloc a b xs = map (\<lambda>i. xs ! i) [a..<b]"
  unfolding iloc_def by (rule nth_equalityI) (simp_all add: min_absorb2)

lemma length_bin_speeds: "length (bin_speeds xs) = length xs"
  by (simp add: bin_speeds_def)

subsection \<open>The decision record and the weighted sum\<close>

lemma decision_label_gen:
  "decision_label (generate_workout_decisions t dur dt) = fst (make_decision (avg_drift_of t) dur)"
  by (simp add: generate_workout_decisions_def Let_def split: prod.splits)

lemma next_duration_gen:
  "next_duration_min (generate_workout_decisions t dur dt) =
     fst (snd (make_decision (avg_drift_of t) dur))"
  by (simp add: generate_workout_decisions_def Let_def split: prod.splits)

lemma sum_list_weights:
  fixes W :: real
  shows "sum_list (map (\<lambda>(pace, r). hr_drift_bpm r * (real (bin_count r) / W)) t) =
         sum_list (map (\<lambda>(pace, r). hr_drift_bpm r * real (bin_count r)) t) / W"
  by (induction t) (auto simp: add_divide_distrib)

lemma real_bin_count_sum:
  "real (bin_count_sum t) = sum_list (map (\<lambda>(pace, r). real (bin_count r)) t)"
  unfolding bin_count_sum_def by (induction t) auto

lemma weighted_sum_upper:
  "\<forall>(pace, r) \<in> set t. hr_drift_bpm r \<le> M \<Longrightarrow>
   sum_list (map (\<lambda>(pace, r). hr_drift_bpm r * real (bin_count r)) t)
     \<le> M * real (bin_count_sum t)"
  unfolding real_bin_count_sum
  by (induction t) (auto simp: distrib_left intro!: add_mono mult_right_mono)

lemma weighted_sum_lower:
  "\<forall>(pace, r) \<in> set t. m \<le> hr_drift_bpm r \<Longrightarrow>
   m * real (bin_count_sum t)
     \<le> sum_list (map (\<lambda>(pace, r). hr_drift_bpm r * real (bin_count r)) t)"
  unfolding real_bin_count_sum
  by (induction t) (auto simp: distrib_left intro!: add_mono mult_right_mono)

lemma bin_count_sum_pos:
  "t \<noteq> [] \<Longrightarrow> \<forall>(pace, r) \<in> set t. 0 < bin_count r \<Longrightarrow> 0 < bin_count_sum t"
  unfolding bin_count_sum_def by (cases t) auto

lemma digit_char_0: "digit_char 0 = CHR ''0''"
  unfolding digit_char_def by code_simp

subsection \<open>Splitting and converting the duration string\<close>

lemma split_on_no_sep: "sep \<notin> set s \<Longrightarrow> split_on sep s = [s]"
  by (induction s) auto

lemma split_on_first:
  "sep \<notin> set h \<Longrightarrow> split_on sep (h @ sep # t) = h # split_on sep t"
  by (induction h) auto

lemma is_digit_not_sign:
  "is_digit c \<Longrightarrow> c \<noteq> CHR ''-'' \<and> c \<noteq> CHR ''+'' \<and> c \<noteq> CHR '':'' \<and> c \<noteq> CHR ''_''"
  by (auto simp: is_digit_def)

lemma literal_digits_two:
  "is_digit a \<Longrightarrow> is_digit b \<Longrightarrow> literal_digits [a, b] = Some [a, b]"
  by (simp add: is_digit_not_sign)

lemma is_digit_not_space: "is_digit c \<Longrightarrow> \<not> is_space c"
  by (auto simp: is_digit_def is_space_def)

lemma py_int_two_digits:
  "is_digit a \<Longrightarrow> is_digit b \<Longrightarrow> py_int [a, b] = Inr (int (10 * digit_val a + digit_val b))"
  by (simp add: py_int_def strip_def is_digit_not_space is_digit_not_sign literal_digits_two decimal_def)

lemma get_minutes_no_colon:
  "CHR '':'' \<notin> set s \<Longrightarrow>
   get_minutes_from_duration_string s =
     (case py_int s of Inl e \<Rightarrow> Inl e | Inr h \<Rightarrow> Inl IndexError)"
  by (simp add: get_minutes_from_duration_string_def split_on_no_sep split: sum.splits)

lemma get_minutes_two_fields:
  assumes "CHR '':'' \<notin> set h" "CHR '':'' \<notin> set m"
  shows "get_minutes_from_duration_string (h @ CHR '':'' # m) =
     (case py_int h of
        Inl e \<Rightarrow> Inl e
      | Inr a \<Rightarrow> (case py_int m of Inl e \<Rightarrow> Inl e | Inr b \<Rightarrow> Inr (a * 60 + b)))"
  using assms
  by (simp add: get_minutes_from_duration_string_def split_on_first split_on_no_sep split: sum.splits)

lemma get_minutes_more_fields:
  assumes "CHR '':'' \<notin> set h" "CHR '':'' \<notin> set m"
  shows "get_minutes_from_duration_string (h @ CHR '':'' # m @ CHR '':'' # rest) =
     (case py_int h of
        Inl e \<Rightarrow> Inl e
      | Inr a \<Rightarrow> (case py_int m of Inl e \<Rightarrow> Inl e | Inr b \<Rightarrow> Inr (a * 60 + b)))"
  using assms
  by (simp add: get_minutes_from_duration_string_def split_on_first split: sum.splits)

subsection \<open>Grouping, filtering and joining\<close>

lemma set_group_keys: "set (group_keys q) = speed ` set q"
  by (simp add: group_keys_def)

lemma distinct_group_keys: "distinct (group_keys q)"
  by (simp add: group_keys_def)

lemma map_of_filter_keys:
  "map_of (filter (\<lambda>(k, r). P r) (map (\<lambda>k. (k, f k)) ks)) k =
     (if k \<in> set ks \<and> P (f k) then Some (f k) else None)"
  by (induction ks) auto

lemma map_fst_filter_keys:
  "map fst (filter (\<lambda>(k, r). P r) (map (\<lambda>k. (k, f k)) ks)) = filter (\<lambda>k. P (f k)) ks"
  by (induction ks) auto

lemma map_of_quarter_analysis:
  "map_of (quarter_analysis t_ppf q) k =
     (if k \<in> speed ` set q \<and> reliable (quarter_row_of t_ppf (group_hr q k))
      then Some (quarter_row_of t_ppf (group_hr q k)) else None)"
  unfolding quarter_analysis_def map_of_filter_keys set_group_keys ..

lemma distinct_quarter_analysis: "distinct (map fst (quarter_analysis t_ppf q))"
  unfolding quarter_analysis_def map_fst_filter_keys
  by (rule distinct_filter) (rule distinct_group_keys)

lemma set_join_dropna:
  "(k, d) \<in> set (join_dropna left right) \<longleftrightarrow>
     (\<exists>r2 r4. (k, r2) \<in> set left \<and> map_of right k = Some r4 \<and> merged_row r2 r4 = Some d)"
  by (induction left right rule: join_dropna.induct) (auto split: option.splits)

lemma keys_join_dropna_subset: "fst ` set (join_dropna left right) \<subseteq> fst ` set left"
  using set_join_dropna by force

lemma distinct_join_dropna:
  "distinct (map fst left) \<Longrightarrow> distinct (map fst (join_dropna left right))"
proof (induction left right rule: join_dropna.induct)
  case (1 right)
  then show ?case by simp
next
  case (2 k r2 left right)
  have "k \<notin> fst ` set (join_dropna left right)"
    using keys_join_dropna_subset [of left right] "2.prems" by auto
  then show ?case using 2 by (auto split: option.splits)
qed

lemma width_Some_std:
  "conf_interval_95_width (quarter_row_of t_ppf hrs) = Some w \<Longrightarrow>
     \<exists>sd. hr_stddev (quarter_row_of t_ppf hrs) = Some sd"
  by (auto simp: quarter_row_of_def split: option.splits)

lemma count_pos_in_quarter:
  "0 < length (group_hr q k) \<Longrightarrow> k \<in> speed ` set q"
  unfolding group_hr_def by (induction q) (auto split: if_splits)

lemma count_gt_in_quarter:
  assumes "n < length (group_hr q k)"
  shows "k \<in> speed ` set q"
proof (rule count_pos_in_quarter)
  show "0 < length (group_hr q k)" using assms by linarith
qed

lemma reliable_row_iff:
  "reliable (quarter_row_of t_ppf hrs) \<longleftrightarrow>
     (\<exists>w. conf_interval_95_width (quarter_row_of t_ppf hrs) = Some w \<and> w < 1) \<and>
     25 < bin_count_q (quarter_row_of t_ppf hrs)"
  by (auto simp: reliable_def split: option.splits)

lemma bin_count_q_row: "bin_count_q (quarter_row_of t_ppf hrs) = length hrs"
  by (simp add: quarter_row_of_def)

lemma merged_row_reliable:
  assumes "conf_interval_95_width (quarter_row_of t_ppf a) = Some w2"
    and "conf_interval_95_width (quarter_row_of t_ppf b) = Some w4"
  shows "merged_row (quarter_row_of t_ppf a) (quarter_row_of t_ppf b) =
     Some \<lparr> hr_drift_bpm = mean b - mean a,
            hr_drift_pct = (if mean a = 0 then None else Some ((mean b - mean a) / mean a)),
            hr_drift_ci_width = sqrt (w2\<^sup>2 + w4\<^sup>2),
            bin_count = length a + length b \<rparr>"
proof -
  obtain sd2 where "hr_stddev (quarter_row_of t_ppf a) = Some sd2"
    using width_Some_std [OF assms(1)] by blast
  moreover obtain sd4 where "hr_stddev (quarter_row_of t_ppf b) = Some sd4"
    using width_Some_std [OF assms(2)] by blast
  ultimately show ?thesis
    using assms by (simp add: merged_row_def) (simp add: quarter_row_of_def)
qed

lemma set_quarter_analysis:
  "(k, r) \<in> set (quarter_analysis t_ppf q) \<longleftrightarrow>
     k \<in> speed ` set q \<and> r = quarter_row_of t_ppf (group_hr q k) \<and> reliable r"
  unfolding quarter_analysis_def set_group_keys [symmetric] by auto

lemma drift_table_entry:
  "(k, d) \<in> set (calculate_cardiac_drift_in_bins t_ppf w) \<longleftrightarrow>
     (let r2 = quarter_row_of t_ppf (group_hr (Q2 (bin_speeds w)) k);
          r4 = quarter_row_of t_ppf (group_hr (Q4 (bin_speeds w)) k)
      in reliable r2 \<and> reliable r4 \<and> merged_row r2 r4 = Some d)"
proof -
  have in2: "reliable (quarter_row_of t_ppf (group_hr q k)) \<Longrightarrow> k \<in> speed ` set q" for q
    using count_gt_in_quarter [of 25 q k] by (auto simp: reliable_def bin_count_q_row)
  show ?thesis
    unfolding calculate_cardiac_drift_in_bins_def Let_def set_join_dropna
      set_quarter_analysis map_of_quarter_analysis
    using in2 by (auto split: if_splits)
qed

subsection \<open>Buckets of one heart rate\<close>

lemma mean_replicate: "0 < n \<Longrightarrow> mean (replicate n h) = h"
  by (simp add: mean_def sum_list_replicate)

lemma std_replicate: "2 \<le> n \<Longrightarrow> std (replicate n h) = Some 0"
  by (simp add: std_def mean_replicate sum_list_replicate)

lemma group_hr_constant:
  assumes "\<forall>s \<in> set q. speed s = k \<longrightarrow> hr s = h"
  shows "group_hr q k = replicate (length (group_hr q k)) h"
proof (rule replicate_length_same [symmetric])
  show "\<forall>y \<in> set (group_hr q k). y = h"
    using assms by (auto simp: group_hr_def)
qed

lemma constant_row:
  assumes "\<forall>s \<in> set q. speed s = k \<longrightarrow> hr s = h"
    and "2 \<le> length (group_hr q k)"
  shows "hr_stddev (quarter_row_of t_ppf (group_hr q k)) = Some 0"
    and "conf_interval_95_width (quarter_row_of t_ppf (group_hr q k)) = Some 0"
    and "hr_avg (quarter_row_of t_ppf (group_hr q k)) = h"
proof -
  obtain n where n: "n = length (group_hr q k)" and g: "group_hr q k = replicate n h"
    using group_hr_constant [OF assms(1)] by blast
  have n2: "2 \<le> n" using assms(2) n by simp
  then have n0: "0 < n" by linarith
  have sd: "std (group_hr q k) = Some 0"
    unfolding g using n2 by (rule std_replicate)
  have mn: "mean (group_hr q k) = h"
    unfolding g using n0 by (rule mean_replicate)
  show "hr_stddev (quarter_row_of t_ppf (group_hr q k)) = Some 0"
    by (simp add: quarter_row_of_def sd)
  show "conf_interval_95_width (quarter_row_of t_ppf (group_hr q k)) = Some 0"
    by (simp add: quarter_row_of_def sd)
  show "hr_avg (quarter_row_of t_ppf (group_hr q k)) = h"
    by (simp add: quarter_row_of_def mn)
qed

subsection \<open>A workout of two halves, 52 samples each, at 10.3 km/h\<close>

lemma speed_bin_example: "speed_bin (103 / 10) = 10"
  by (simp add: speed_bin_def)

lemma Q2_two_halves: "Q2 (replicate 52 a @ replicate 52 b) = replicate 26 a"
  by (simp add: Q2_def iloc_def Let_def)

lemma Q4_two_halves: "Q4 (replicate 52 a @ replicate 52 b) = replicate 26 b"
  by (simp add: Q4_def Let_def)

lemma bin_speeds_two_halves:
  "bin_speeds (replicate m a @ replicate n b) =
     replicate m (a\<lparr>speed := speed_bin (speed a)\<rparr>) @ replicate n (b\<lparr>speed := speed_bin (speed b)\<rparr>)"
  by (simp add: bin_speeds_def)

lemma group_hr_replicate:
  "group_hr (replicate n s) k = (if speed s = k then replicate n (hr s) else [])"
  by (simp add: group_hr_def filter_replicate)

lemma remdups_replicate_Suc: "remdups (replicate (Suc n) x) = [x]"
  by (induction n) simp_all

lemma group_keys_replicate: "0 < n \<Longrightarrow> group_keys (replicate n s) = [speed s]"
  using remdups_replicate_Suc [of "n - 1" "speed s"] by (simp add: group_keys_def)

lemma two_halves_Q2:
  "Q2 (bin_speeds (replicate 52 \<lparr>hr = a, speed = 103 / 10\<rparr> @
                   replicate 52 \<lparr>hr = b, speed = 103 / 10\<rparr>)) =
     replicate 26 \<lparr>hr = a, speed = 10\<rparr>"
  by (simp add: bin_speeds_two_halves speed_bin_example Q2_two_halves)

lemma two_halves_Q4:
  "Q4 (bin_speeds (replicate 52 \<lparr>hr = a, speed = 103 / 10\<rparr> @
                   replicate 52 \<lparr>hr = b, speed = 103 / 10\<rparr>)) =
     replicate 26 \<lparr>hr = b, speed = 10\<rparr>"
  by (simp add: bin_speeds_two_halves speed_bin_example Q4_two_halves)

lemma constant_row_26:
  "quarter_row_of t_ppf (replicate 26 h) =
     \<lparr>hr_avg = h, bin_count_q = 26, hr_stddev = Some 0, conf_interval_95_width = Some 0\<rparr>"
  by (simp add: quarter_row_of_def mean_replicate std_replicate)

lemma two_halves_entry:
  "(10, \<lparr>hr_drift_bpm = b - a, hr_drift_pct = (if a = 0 then None else Some ((b - a) / a)),
         hr_drift_ci_width = 0, bin_count = 52\<rparr>)
     \<in> set (calculate_cardiac_drift_in_bins t_ppf
          (replicate 52 \<lparr>hr = a, speed = 103 / 10\<rparr> @
           replicate 52 \<lparr>hr = b, speed = 103 / 10\<rparr>))"
  by (simp add: drift_table_entry Let_def two_halves_Q2 two_halves_Q4 group_hr_replicate
      constant_row_26 reliable_def merged_row_def)

subsection \<open>Rounding to a double and adding doubles\<close>

lemma exp_up_bounds: "1 \<le> x \<Longrightarrow> 2 powi exp_up x \<le> x \<and> x < 2 powi (exp_up x + 1)"
proof (induction x rule: exp_up.induct)
  case (1 x)
  show ?case
  proof (cases "2 \<le> x")
    case True
    then have "1 \<le> x / 2" by simp
    with 1 True have ih: "2 powi exp_up (x / 2) \<le> x / 2 \<and> x / 2 < 2 powi (exp_up (x / 2) + 1)"
      by blast
    have e: "exp_up x = exp_up (x / 2) + 1" using True by (simp add: exp_up.simps [of x])
    have p: "2 powi (k + 1) = 2 * (2::real) powi k" for k
      by (simp add: power_int_add)
    show ?thesis using ih unfolding e p by simp
  next
    case False
    then have e: "exp_up x = 0" by (simp add: exp_up.simps [of x])
    show ?thesis using False 1(2) by (simp add: e)
  qed
qed

lemma exp_down_bounds:
  "0 < x \<Longrightarrow> x < 1 \<Longrightarrow> 2 powi exp_down x \<le> x \<and> x < 2 powi (exp_down x + 1)"
proof (induction x rule: exp_down.induct)
  case (1 x)
  have e: "exp_down x = exp_down (2 * x) - 1"
    using 1(2,3) by (simp add: exp_down.simps [of x])
  have p: "2 powi (k - 1) = (2::real) powi k / 2" for k
    by (simp add: power_int_diff)
  show ?case
  proof (cases "2 * x < 1")
    case True
    with 1 have ih: "2 powi exp_down (2 * x) \<le> 2 * x \<and> 2 * x < 2 powi (exp_down (2 * x) + 1)"
      by simp
    have "exp_down (2 * x) - 1 + 1 = exp_down (2 * x)" by simp
    then show ?thesis using ih unfolding e p by (simp add: power_int_add)
  next
    case False
    then have "exp_down (2 * x) = 0" by (simp add: exp_down.simps [of "2 * x"])
    then have "exp_down x = - 1" using e by simp
    then show ?thesis using False 1(3) by simp
  qed
qed

lemma binade_bounds:
  assumes "0 < x"
  shows "2 powi binade x \<le> x" and "x < 2 powi (binade x + 1)"
  using assms exp_up_bounds [of x] exp_down_bounds [of x]
  by (auto simp: binade_def not_le)

lemma round_half_even_err: "\<bar>of_int (round_half_even y) - y\<bar> \<le> 1 / 2"
  unfolding round_half_even_def Let_def by (auto; linarith)

lemma fl64_err: "\<bar>fl64 x - x\<bar> \<le> unit_roundoff * \<bar>x\<bar>"
proof (cases "x = 0")
  case True
  then show ?thesis by (simp add: fl64_def)
next
  case False
  define e where "e = binade \<bar>x\<bar>"
  define q :: real where "q = 2 powi (e - 52)"
  have qpos: "0 < q" by (simp add: q_def)
  have fl: "fl64 x = of_int (round_half_even (x / q)) * q"
    using False by (simp add: fl64_def Let_def q_def e_def)
  have "fl64 x - x = (of_int (round_half_even (x / q)) - x / q) * q"
    using qpos unfolding fl by (simp add: field_simps)
  then have "\<bar>fl64 x - x\<bar> = \<bar>of_int (round_half_even (x / q)) - x / q\<bar> * \<bar>q\<bar>"
    by (simp only: abs_mult)
  also have "\<dots> = \<bar>of_int (round_half_even (x / q)) - x / q\<bar> * q"
    using qpos by simp
  also have "\<dots> \<le> 1 / 2 * q"
    using round_half_even_err [of "x / q"] qpos by (intro mult_right_mono) simp_all
  also have "\<dots> = unit_roundoff * 2 powi e"
    by (simp add: q_def unit_roundoff_def power_int_diff)
  also have "\<dots> \<le> unit_roundoff * \<bar>x\<bar>"
    using binade_bounds(1) [of "\<bar>x\<bar>"] False
    by (intro mult_left_mono) (simp_all add: e_def unit_roundoff_def)
  finally show ?thesis .
qed

lemma float_sum_nonempty: "float_sum xs s \<Longrightarrow> xs \<noteq> []"
  by (induction rule: float_sum.induct) simp_all

lemma foldl_float_sum:
  "float_sum xs a \<Longrightarrow> float_sum (xs @ ys) (foldl (\<lambda>acc x. fl64 (acc + x)) a ys)"
proof (induction ys arbitrary: xs a)
  case Nil
  then show ?case by simp
next
  case (Cons y ys)
  have "float_sum (xs @ [y]) (fl64 (a + y))"
    using Cons.prems float_sum.one [of y] by (rule float_sum.add)
  from Cons.IH [OF this] show ?case by simp
qed

lemma unit_roundoff_nonneg: "0 \<le> unit_roundoff"
  by (simp add: unit_roundoff_def)

lemma fl64_abs_le: "\<bar>fl64 x\<bar> \<le> (1 + unit_roundoff) * \<bar>x\<bar>"
  using fl64_err [of x] by (simp add: distrib_right)

lemma abs_sum_list_le: "\<bar>sum_list xs\<bar> \<le> sum_list (map abs xs)" for xs :: "real list"
  by (induction xs) auto

lemma abs_sum_nonneg: "0 \<le> sum_list (map abs xs)" for xs :: "real list"
  by (induction xs) auto

lemma float_sum_err:
  assumes "float_sum xs s"
  shows "\<bar>s - sum_list xs\<bar>
           \<le> ((1 + unit_roundoff) ^ (length xs - 1) - 1) * sum_list (map abs xs)"
  using assms
proof (induction rule: float_sum.induct)
  case (one x)
  then show ?case by simp
next
  case (add xs a ys b)
  let ?u = unit_roundoff
  let ?X = "sum_list xs" and ?Y = "sum_list ys"
  let ?AX = "sum_list (map abs xs)" and ?AY = "sum_list (map abs ys)"
  let ?m = "length xs" and ?k = "length ys"
  have u0: "0 \<le> ?u" by (rule unit_roundoff_nonneg)
  have m1: "1 \<le> ?m" and k1: "1 \<le> ?k"
    using float_sum_nonempty [OF add.hyps(1)] float_sum_nonempty [OF add.hyps(2)]
    by (simp_all add: Suc_le_eq)
  have AX0: "0 \<le> ?AX" and AY0: "0 \<le> ?AY" by (rule abs_sum_nonneg)+
  have gm: "(1 + ?u) * (1 + ?u) ^ (?m - 1) = (1 + ?u) ^ ?m"
    using m1 by (cases ?m) simp_all
  have gk: "(1 + ?u) * (1 + ?u) ^ (?k - 1) = (1 + ?u) ^ ?k"
    using k1 by (cases ?k) simp_all
  have a: "\<bar>a\<bar> \<le> (1 + ?u) ^ (?m - 1) * ?AX"
  proof -
    have "\<bar>a\<bar> \<le> \<bar>a - ?X\<bar> + \<bar>?X\<bar>" by simp
    also have "\<dots> \<le> ((1 + ?u) ^ (?m - 1) - 1) * ?AX + ?AX"
      using add.IH(1) abs_sum_list_le [of xs] by simp
    finally show ?thesis by (simp add: left_diff_distrib)
  qed
  have b: "\<bar>b\<bar> \<le> (1 + ?u) ^ (?k - 1) * ?AY"
  proof -
    have "\<bar>b\<bar> \<le> \<bar>b - ?Y\<bar> + \<bar>?Y\<bar>" by simp
    also have "\<dots> \<le> ((1 + ?u) ^ (?k - 1) - 1) * ?AY + ?AY"
      using add.IH(2) abs_sum_list_le [of ys] by simp
    finally show ?thesis by (simp add: left_diff_distrib)
  qed
  have r: "\<bar>fl64 (a + b) - (a + b)\<bar> \<le> ?u * (\<bar>a\<bar> + \<bar>b\<bar>)"
  proof -
    have "\<bar>fl64 (a + b) - (a + b)\<bar> \<le> ?u * \<bar>a + b\<bar>" by (rule fl64_err)
    also have "\<dots> \<le> ?u * (\<bar>a\<bar> + \<bar>b\<bar>)" using u0 by (intro mult_left_mono) simp_all
    finally show ?thesis .
  qed
  have "\<bar>fl64 (a + b) - (?X + ?Y)\<bar>
          \<le> \<bar>fl64 (a + b) - (a + b)\<bar> + \<bar>a - ?X\<bar> + \<bar>b - ?Y\<bar>"
    by simp
  also have "\<dots> \<le> ?u * (\<bar>a\<bar> + \<bar>b\<bar>)
      + ((1 + ?u) ^ (?m - 1) - 1) * ?AX + ((1 + ?u) ^ (?k - 1) - 1) * ?AY"
    using r add.IH by simp
  also have "\<dots> \<le> ?u * ((1 + ?u) ^ (?m - 1) * ?AX + (1 + ?u) ^ (?k - 1) * ?AY)
      + ((1 + ?u) ^ (?m - 1) - 1) * ?AX + ((1 + ?u) ^ (?k - 1) - 1) * ?AY"
    using a b u0 by (simp add: mult_left_mono add_mono)
  also have "\<dots> = ((1 + ?u) ^ ?m - 1) * ?AX + ((1 + ?u) ^ ?k - 1) * ?AY"
    unfolding gm [symmetric] gk [symmetric] by (simp add: algebra_simps)
  also have "\<dots> \<le> ((1 + ?u) ^ (?m + ?k - 1) - 1) * ?AX + ((1 + ?u) ^ (?m + ?k - 1) - 1) * ?AY"
  proof (intro add_mono mult_right_mono AX0 AY0)
    show "(1 + ?u) ^ ?m - 1 \<le> (1 + ?u) ^ (?m + ?k - 1) - 1"
      using u0 k1 by (simp add: power_increasing)
    show "(1 + ?u) ^ ?k - 1 \<le> (1 + ?u) ^ (?m + ?k - 1) - 1"
      using u0 m1 by (simp add: power_increasing)
  qed
  finally show ?case by (simp add: distrib_left)
next
  case (swap xs x y ys s)
  then show ?case by (simp add: add.left_commute)
qed

lemma product_err:
  "\<bar>fl64 (d * fl64 w) - d * w\<bar> \<le> ((1 + unit_roundoff)\<^sup>2 - 1) * \<bar>d * w\<bar>"
proof -
  let ?u = unit_roundoff
  have u0: "0 \<le> ?u" by (rule unit_roundoff_nonneg)
  have w: "\<bar>fl64 w - w\<bar> \<le> ?u * \<bar>w\<bar>" by (rule fl64_err)
  have w': "\<bar>fl64 w\<bar> \<le> (1 + ?u) * \<bar>w\<bar>" by (rule fl64_abs_le)
  have "\<bar>fl64 (d * fl64 w) - d * fl64 w\<bar> \<le> ?u * \<bar>d * fl64 w\<bar>" by (rule fl64_err)
  also have "\<dots> = ?u * (\<bar>d\<bar> * \<bar>fl64 w\<bar>)" by (simp add: abs_mult)
  also have "\<dots> \<le> ?u * (\<bar>d\<bar> * ((1 + ?u) * \<bar>w\<bar>))"
    using w' u0 by (intro mult_left_mono) simp_all
  finally have p: "\<bar>fl64 (d * fl64 w) - d * fl64 w\<bar> \<le> ?u * (1 + ?u) * \<bar>d * w\<bar>"
    by (simp add: abs_mult mult_ac)
  have "\<bar>d * fl64 w - d * w\<bar> = \<bar>d\<bar> * \<bar>fl64 w - w\<bar>"
    by (simp add: abs_mult [symmetric] right_diff_distrib)
  also have "\<dots> \<le> \<bar>d\<bar> * (?u * \<bar>w\<bar>)" using w by (intro mult_left_mono) simp_all
  finally have q: "\<bar>d * fl64 w - d * w\<bar> \<le> ?u * \<bar>d * w\<bar>"
    by (simp add: abs_mult mult_ac)
  have "\<bar>fl64 (d * fl64 w) - d * w\<bar>
      \<le> \<bar>fl64 (d * fl64 w) - d * fl64 w\<bar> + \<bar>d * fl64 w - d * w\<bar>"
    by simp
  also have "\<dots> \<le> ?u * (1 + ?u) * \<bar>d * w\<bar> + ?u * \<bar>d * w\<bar>" using p q by simp
  also have "\<dots> = ((1 + ?u)\<^sup>2 - 1) * \<bar>d * w\<bar>" by (simp add: power2_eq_square algebra_simps)
  finally show ?thesis .
qed

lemmas fl64_eval = fl64_def binade_def exp_up.simps exp_down.simps round_half_even_def Let_def

lemma products_err:
  fixes W :: real
  shows "\<bar>sum_list (map (\<lambda>(pace, r). fl64 (hr_drift_bpm r * fl64 (real (bin_count r) / W))) t)
           - sum_list (map (\<lambda>(pace, r). hr_drift_bpm r * (real (bin_count r) / W)) t)\<bar>
         \<le> ((1 + unit_roundoff)\<^sup>2 - 1)
             * sum_list (map (\<lambda>(pace, r). \<bar>hr_drift_bpm r * (real (bin_count r) / W)\<bar>) t)"
proof (induction t)
  case Nil
  then show ?case by simp
next
  case (Cons x t)
  obtain pace r where x: "x = (pace, r)" by (cases x)
  show ?case
    using Cons.IH product_err [of "hr_drift_bpm r" "real (bin_count r) / W"]
    unfolding x by (simp add: distrib_left)
qed

lemma products_abs:
  fixes W :: real
  shows "sum_list (map abs (map (\<lambda>(pace, r). fl64 (hr_drift_bpm r * fl64 (real (bin_count r) / W))) t))
         \<le> (1 + unit_roundoff)\<^sup>2
             * sum_list (map (\<lambda>(pace, r). \<bar>hr_drift_bpm r * (real (bin_count r) / W)\<bar>) t)"
proof (induction t)
  case Nil
  then show ?case by simp
next
  case (Cons x t)
  obtain pace r where x: "x = (pace, r)" by (cases x)
  let ?d = "hr_drift_bpm r" and ?w = "real (bin_count r) / W"
  have tri: "\<bar>a\<bar> \<le> \<bar>a - b\<bar> + \<bar>b\<bar>" for a b :: real by simp
  have alg: "(g - 1) * y + y = g * y" for g y :: real by (simp add: algebra_simps)
  have "\<bar>fl64 (?d * fl64 ?w)\<bar> \<le> \<bar>fl64 (?d * fl64 ?w) - ?d * ?w\<bar> + \<bar>?d * ?w\<bar>"
    by (rule tri)
  also have "\<dots> \<le> ((1 + unit_roundoff)\<^sup>2 - 1) * \<bar>?d * ?w\<bar> + \<bar>?d * ?w\<bar>"
    using product_err [of ?d ?w] by simp
  also have "\<dots> = (1 + unit_roundoff)\<^sup>2 * \<bar>?d * ?w\<bar>"
    by (rule alg)
  finally have "\<bar>fl64 (?d * fl64 ?w)\<bar> \<le> (1 + unit_roundoff)\<^sup>2 * \<bar>?d * ?w\<bar>" .
  then show ?case using Cons.IH unfolding x by (simp add: distrib_left)
qed

lemma abs_weights:
  fixes W :: real
  assumes "0 < W"
  shows "sum_list (map (\<lambda>(pace, r). \<bar>hr_drift_bpm r * (real (bin_count r) / W)\<bar>) t)
         = sum_list (map (\<lambda>(pace, r). \<bar>hr_drift_bpm r\<bar> * real (bin_count r)) t) / W"
  using assms by (induction t) (auto simp: add_divide_distrib abs_mult)

lemma exact_mean_bounds:
  assumes ne: "t \<noteq> []"
    and pos: "\<forall>(pace, r) \<in> set t. 0 < bin_count r"
  shows "Min ((\<lambda>(pace, r). hr_drift_bpm r) ` set t)
           \<le> sum_list (map (\<lambda>(pace, r). hr_drift_bpm r * real (bin_count r)) t)
               / real (bin_count_sum t)"
    and "sum_list (map (\<lambda>(pace, r). hr_drift_bpm r * real (bin_count r)) t)
           / real (bin_count_sum t)
         \<le> Max ((\<lambda>(pace, r). hr_drift_bpm r) ` set t)"
proof -
  let ?W = "real (bin_count_sum t)"
  let ?S = "sum_list (map (\<lambda>(pace, r). hr_drift_bpm r * real (bin_count r)) t)"
  let ?D = "(\<lambda>(pace, r). hr_drift_bpm r) ` set t"
  have W: "0 < ?W" using bin_count_sum_pos [OF ne pos] by simp
  have fin: "finite ?D" by simp
  have "\<forall>(pace, r) \<in> set t. hr_drift_bpm r \<le> Max ?D"
    using fin by (auto intro!: Max_ge)
  then have up: "?S \<le> Max ?D * ?W" by (rule weighted_sum_upper)
  have "\<forall>(pace, r) \<in> set t. Min ?D \<le> hr_drift_bpm r"
    using fin by (auto intro!: Min_le)
  then have lo: "Min ?D * ?W \<le> ?S" by (rule weighted_sum_lower)
  show "Min ?D \<le> ?S / ?W" using lo W by (simp add: pos_le_divide_eq)
  show "?S / ?W \<le> Max ?D" using up W by (simp add: pos_divide_le_eq)
qed

lemma two_bucket_products:
  "weighted_products
     [(10, \<lparr>hr_drift_bpm = 3, hr_drift_pct = Some (3 / 140), hr_drift_ci_width = 0,
            bin_count = 52\<rparr>),
      (21 / 2, \<lparr>hr_drift_bpm = 3, hr_drift_pct = Some (3 / 150), hr_drift_ci_width = 0,
            bin_count = 199\<rparr>)] =
   [5598099935217509 / 9007199254740992, 2677937228625683 / 1125899906842624]"
  by (simp add: weighted_products_def bin_count_sum_def fl64_eval)

lemma two_bucket_avg:
  "avg_drift_float
     [(10, \<lparr>hr_drift_bpm = 3, hr_drift_pct = Some (3 / 140), hr_drift_ci_width = 0,
            bin_count = 52\<rparr>),
      (21 / 2, \<lparr>hr_drift_bpm = 3, hr_drift_pct = Some (3 / 150), hr_drift_ci_width = 0,
            bin_count = 199\<rparr>)] = 3 - 1 / 2 ^ 51"
  unfolding avg_drift_float_def two_bucket_products
  by (simp add: bin_count_sum_def fl64_eval)

lemma avg_drift_float_sum:
  assumes "t \<noteq> []" and "0 < bin_count_sum t"
  shows "float_sum (weighted_products t) (avg_drift_float t)"
proof -
  obtain p ps where ps: "weighted_products t = p # ps"
    using assms(1) by (cases t) (simp_all add: weighted_products_def)
  have "float_sum ([p] @ ps) (foldl (\<lambda>acc x. fl64 (acc + x)) p ps)"
    using float_sum.one [of p] by (rule foldl_float_sum)
  then show ?thesis using assms(2) by (simp add: avg_drift_float_def ps)
qed

section \<open>The decision generator\<close>

text \<open>
  C1, as the code has it. \<^verbatim>\<open>generate_workout_decisions\<close> has no guard for a drift
  table without rows and raises nothing on it: the weighted average is the sum over
  no rows, 0, and the function returns the decision record of an average drift of 0,
  category Elite, action "extend much" and ten minutes more, whatever the duration
  and the date.
\<close>

theorem empty_table_decision:
  "generate_workout_decisions [] dur dt =
     \<lparr> date = dt, duration_min = dur, avg_drift_bpm = 0, drift_details = [],
       fitness_category = ''Elite'', decision_label = ''extend much'',
       next_duration_min = dur + 10, paces_analyzed = [],
       decision_notes = ''Drift 0.0 bpm is super good. Ready to add 10 minutes.'' \<rparr>"
  by (simp add: generate_workout_decisions_def avg_drift_of_def bin_count_sum_def
      category_of_def make_decision_def round1_def round_half_even_def fmt_1f_def
      digit_char_0 Let_def)

text \<open>
  C1 as stated fails: on the empty table and a workout of 60 minutes the function
  computes an average and recommends 70 minutes.
\<close>

theorem empty_table_no_error:
  "avg_drift_of [] = 0 \<and>
   decision_label (generate_workout_decisions [] 60 ''2025-01-01'') = ''extend much'' \<and>
   next_duration_min (generate_workout_decisions [] 60 ''2025-01-01'') = 70"
  unfolding decision_label_gen next_duration_gen
  by (simp add: avg_drift_of_def bin_count_sum_def make_decision_def)

text \<open>
  C2. The action and the next duration follow the ladder on the average drift:
  below 3 "extend much" and ten minutes more; from 3 to 5, both included, "extend"
  and five minutes more; above 5 up to 8 included "maintain" and the same duration;
  above 8 "reduce" and five minutes less.
\<close>

theorem decision_ladder:
  "(avg_drift_of t < 3 \<longrightarrow>
      decision_label (generate_workout_decisions t dur dt) = ''extend much'' \<and>
      next_duration_min (generate_workout_decisions t dur dt) = dur + 10) \<and>
   (3 \<le> avg_drift_of t \<and> avg_drift_of t \<le> 5 \<longrightarrow>
      decision_label (generate_workout_decisions t dur dt) = ''extend'' \<and>
      next_duration_min (generate_workout_decisions t dur dt) = dur + 5) \<and>
   (5 < avg_drift_of t \<and> avg_drift_of t \<le> 8 \<longrightarrow>
      decision_label (generate_workout_decisions t dur dt) = ''maintain'' \<and>
      next_duration_min (generate_workout_decisions t dur dt) = dur) \<and>
   (8 < avg_drift_of t \<longrightarrow>
      decision_label (generate_workout_decisions t dur dt) = ''reduce'' \<and>
      next_duration_min (generate_workout_decisions t dur dt) = dur - 5)"
  unfolding decision_label_gen next_duration_gen
  by (simp add: make_decision_def)

text \<open>The ladder at the three boundaries: one bucket, drift 3, 5 and 8, 60 minutes.\<close>

theorem decision_ladder_witness:
  "decision_label (generate_workout_decisions
      [(10, \<lparr>hr_drift_bpm = 3, hr_drift_pct = Some (3 / 140), hr_drift_ci_width = 0,
             bin_count = 60\<rparr>)] 60 ''2025-01-01'') = ''extend'' \<and>
   next_duration_min (generate_workout_decisions
      [(10, \<lparr>hr_drift_bpm = 5, hr_drift_pct = Some (5 / 140), hr_drift_ci_width = 0,
             bin_count = 60\<rparr>)] 60 ''2025-01-01'') = 65 \<and>
   decision_label (generate_workout_decisions
      [(10, \<lparr>hr_drift_bpm = 8, hr_drift_pct = Some (8 / 140), hr_drift_ci_width = 0,
             bin_count = 60\<rparr>)] 60 ''2025-01-01'') = ''maintain''"
  using
    decision_ladder [of "[(10, \<lparr>hr_drift_bpm = 3, hr_drift_pct = Some (3 / 140),
      hr_drift_ci_width = 0, bin_count = 60\<rparr>)]" 60 "''2025-01-01''"]
    decision_ladder [of "[(10, \<lparr>hr_drift_bpm = 5, hr_drift_pct = Some (5 / 140),
      hr_drift_ci_width = 0, bin_count = 60\<rparr>)]" 60 "''2025-01-01''"]
    decision_ladder [of "[(10, \<lparr>hr_drift_bpm = 8, hr_drift_pct = Some (8 / 140),
      hr_drift_ci_width = 0, bin_count = 60\<rparr>)]" 60 "''2025-01-01''"]
  by (simp add: avg_drift_of_def bin_count_sum_def)

text \<open>
  C10. The recommended duration is not clamped: an average drift above 8 gives the
  duration less five for every integer duration, also where that is zero or negative.
\<close>

theorem reduce_not_clamped:
  "8 < avg_drift_of t \<Longrightarrow>
     next_duration_min (generate_workout_decisions t dur dt) = dur - 5"
  unfolding next_duration_gen by (simp add: make_decision_def)

text \<open>A workout of 3 minutes with a drift of 9: the recommendation is -2 minutes.\<close>

theorem reduce_not_clamped_witness:
  "avg_drift_of [(10, \<lparr>hr_drift_bpm = 9, hr_drift_pct = Some (9 / 140),
                       hr_drift_ci_width = 0, bin_count = 60\<rparr>)] = 9 \<and>
   next_duration_min (generate_workout_decisions
      [(10, \<lparr>hr_drift_bpm = 9, hr_drift_pct = Some (9 / 140), hr_drift_ci_width = 0,
             bin_count = 60\<rparr>)] 3 ''2025-01-01'') = - 2"
  using reduce_not_clamped [of "[(10, \<lparr>hr_drift_bpm = 9, hr_drift_pct = Some (9 / 140),
      hr_drift_ci_width = 0, bin_count = 60\<rparr>)]" 3 "''2025-01-01''"]
  by (simp add: avg_drift_of_def bin_count_sum_def)

text \<open>
  C7, as the code has it. Over a table with at least one row and positive counts,
  the average drift that line 71 computes in double precision, in whatever order the
  products are added, is the sum of drift times count over the sum of the counts up
  to rounding: with n rows the two differ by at most \<open>(1 + u) ^ (n + 1) - 1\<close> times
  the sum of the absolute drifts times count over the sum of the counts, where
  \<open>u\<close> is \<open>1 / 2 ^ 53\<close>, and the average lies between the least and the greatest
  drift of the rows widened by that much. The table has fewer than \<open>2 ^ 53\<close>
  samples in all and every drift is 0 or of a size from \<open>1 / 2 ^ 900\<close> to
  \<open>2 ^ 900\<close>, so that no intermediate result leaves the normal range of a double.
\<close>

theorem float_avg_drift_bound:
  assumes ne: "t \<noteq> []"
    and pos: "\<forall>(pace, r) \<in> set t. 0 < bin_count r"
    and tot: "bin_count_sum t < 2 ^ 53"
    and mag: "\<forall>(pace, r) \<in> set t.
                hr_drift_bpm r = 0 \<or>
                (1 / 2 ^ 900 \<le> \<bar>hr_drift_bpm r\<bar> \<and> \<bar>hr_drift_bpm r\<bar> \<le> 2 ^ 900)"
    and sum: "float_sum (weighted_products t) s"
  shows
    "\<bar>s - sum_list (map (\<lambda>(pace, r). hr_drift_bpm r * real (bin_count r)) t)
            / real (sum_list (map (\<lambda>(pace, r). bin_count r) t))\<bar>
       \<le> ((1 + unit_roundoff) ^ (length t + 1) - 1)
           * (sum_list (map (\<lambda>(pace, r). \<bar>hr_drift_bpm r\<bar> * real (bin_count r)) t)
              / real (sum_list (map (\<lambda>(pace, r). bin_count r) t)))
     \<and> Min ((\<lambda>(pace, r). hr_drift_bpm r) ` set t)
           - ((1 + unit_roundoff) ^ (length t + 1) - 1)
             * (sum_list (map (\<lambda>(pace, r). \<bar>hr_drift_bpm r\<bar> * real (bin_count r)) t)
                / real (sum_list (map (\<lambda>(pace, r). bin_count r) t)))
         \<le> s
     \<and> s \<le> Max ((\<lambda>(pace, r). hr_drift_bpm r) ` set t)
           + ((1 + unit_roundoff) ^ (length t + 1) - 1)
             * (sum_list (map (\<lambda>(pace, r). \<bar>hr_drift_bpm r\<bar> * real (bin_count r)) t)
                / real (sum_list (map (\<lambda>(pace, r). bin_count r) t)))"
proof -
  let ?u = unit_roundoff
  let ?n = "length t"
  let ?W = "real (bin_count_sum t)"
  let ?ps = "weighted_products t"
  let ?as = "map (\<lambda>(pace, r). hr_drift_bpm r * (real (bin_count r) / ?W)) t"
  let ?B = "sum_list (map (\<lambda>(pace, r). \<bar>hr_drift_bpm r * (real (bin_count r) / ?W)\<bar>) t)"
  let ?S = "sum_list (map (\<lambda>(pace, r). hr_drift_bpm r * real (bin_count r)) t)"
  let ?A = "sum_list (map (\<lambda>(pace, r). \<bar>hr_drift_bpm r\<bar> * real (bin_count r)) t)"
  let ?D = "(\<lambda>(pace, r). hr_drift_bpm r) ` set t"
  let ?E = "((1 + ?u) ^ (?n + 1) - 1) * (?A / ?W)"
  have u0: "0 \<le> ?u" by (rule unit_roundoff_nonneg)
  have W: "0 < ?W" using bin_count_sum_pos [OF ne pos] by simp
  have n1: "1 \<le> ?n" using ne by (cases t) simp_all
  have len: "length ?ps = ?n" by (simp add: weighted_products_def)
  have g0: "0 \<le> (1 + ?u) ^ (?n - 1) - 1" using u0 by simp
  have e1: "\<bar>s - sum_list ?ps\<bar> \<le> ((1 + ?u) ^ (?n - 1) - 1) * sum_list (map abs ?ps)"
    using float_sum_err [OF sum] len by simp
  have e2: "sum_list (map abs ?ps) \<le> (1 + ?u)\<^sup>2 * ?B"
    unfolding weighted_products_def by (rule products_abs)
  have e3: "\<bar>sum_list ?ps - sum_list ?as\<bar> \<le> ((1 + ?u)\<^sup>2 - 1) * ?B"
    unfolding weighted_products_def by (rule products_err)
  have "\<bar>s - sum_list ?as\<bar> \<le> \<bar>s - sum_list ?ps\<bar> + \<bar>sum_list ?ps - sum_list ?as\<bar>"
    by simp
  also have "\<dots> \<le> ((1 + ?u) ^ (?n - 1) - 1) * ((1 + ?u)\<^sup>2 * ?B) + ((1 + ?u)\<^sup>2 - 1) * ?B"
  proof (intro add_mono e3)
    have "\<bar>s - sum_list ?ps\<bar> \<le> ((1 + ?u) ^ (?n - 1) - 1) * sum_list (map abs ?ps)"
      by (rule e1)
    also have "\<dots> \<le> ((1 + ?u) ^ (?n - 1) - 1) * ((1 + ?u)\<^sup>2 * ?B)"
      using e2 g0 by (rule mult_left_mono)
    finally show "\<bar>s - sum_list ?ps\<bar> \<le> ((1 + ?u) ^ (?n - 1) - 1) * ((1 + ?u)\<^sup>2 * ?B)" .
  qed
  also have "\<dots> = ((1 + ?u) ^ (?n - 1) * (1 + ?u)\<^sup>2 - 1) * ?B"
    by (simp add: algebra_simps)
  also have "(1 + ?u) ^ (?n - 1) * (1 + ?u)\<^sup>2 = (1 + ?u) ^ (?n + 1)"
  proof -
    have "?n - 1 + 2 = ?n + 1" using n1 by simp
    then show ?thesis by (simp only: power_add [symmetric])
  qed
  finally have err: "\<bar>s - sum_list ?as\<bar> \<le> ((1 + ?u) ^ (?n + 1) - 1) * ?B" .
  have as: "sum_list ?as = ?S / ?W" by (rule sum_list_weights)
  have B: "?B = ?A / ?W" using W by (rule abs_weights)
  have main: "\<bar>s - ?S / ?W\<bar> \<le> ?E" using err unfolding as B .
  have lo: "Min ?D \<le> ?S / ?W" and hi: "?S / ?W \<le> Max ?D"
    using exact_mean_bounds [OF ne pos] by blast+
  from main lo hi show ?thesis
    unfolding bin_count_sum_def by (simp add: abs_le_iff)
qed

text \<open>
  Two buckets of drift 3 with 52 and 199 samples: the average is \<open>3 - 1 / 2 ^ 51\<close>,
  within the bound.
\<close>

theorem float_avg_drift_bound_witness:
  "avg_drift_float
     [(10, \<lparr>hr_drift_bpm = 3, hr_drift_pct = Some (3 / 140), hr_drift_ci_width = 0,
            bin_count = 52\<rparr>),
      (21 / 2, \<lparr>hr_drift_bpm = 3, hr_drift_pct = Some (3 / 150), hr_drift_ci_width = 0,
            bin_count = 199\<rparr>)] = 3 - 1 / 2 ^ 51 \<and>
   \<bar>avg_drift_float
     [(10, \<lparr>hr_drift_bpm = 3, hr_drift_pct = Some (3 / 140), hr_drift_ci_width = 0,
            bin_count = 52\<rparr>),
      (21 / 2, \<lparr>hr_drift_bpm = 3, hr_drift_pct = Some (3 / 150), hr_drift_ci_width = 0,
            bin_count = 199\<rparr>)] - 3\<bar> \<le> ((1 + unit_roundoff) ^ 3 - 1) * 3"
proof -
  let ?t = "[(10, \<lparr>hr_drift_bpm = 3, hr_drift_pct = Some (3 / 140), hr_drift_ci_width = 0,
               bin_count = 52\<rparr>),
         (21 / 2, \<lparr>hr_drift_bpm = 3, hr_drift_pct = Some (3 / 150), hr_drift_ci_width = 0,
               bin_count = 199\<rparr>)]"
  have ne: "?t \<noteq> []" by simp
  have pos: "\<forall>(pace, r) \<in> set ?t. 0 < bin_count r" by simp
  have tot: "bin_count_sum ?t < 2 ^ 53" by (simp add: bin_count_sum_def)
  have mag: "\<forall>(pace, r) \<in> set ?t.
                hr_drift_bpm r = 0 \<or>
                (1 / 2 ^ 900 \<le> \<bar>hr_drift_bpm r\<bar> \<and> \<bar>hr_drift_bpm r\<bar> \<le> 2 ^ 900)"
    by simp
  have fs: "float_sum (weighted_products ?t) (avg_drift_float ?t)"
    by (rule avg_drift_float_sum) (simp_all add: bin_count_sum_def)
  have S: "sum_list (map (\<lambda>(pace, r). hr_drift_bpm r * real (bin_count r)) ?t)
            / real (sum_list (map (\<lambda>(pace, r). bin_count r) ?t)) = 3"
    by simp
  have A: "sum_list (map (\<lambda>(pace, r). \<bar>hr_drift_bpm r\<bar> * real (bin_count r)) ?t)
            / real (sum_list (map (\<lambda>(pace, r). bin_count r) ?t)) = 3"
    by simp
  have L: "length ?t + 1 = 3" by simp
  have "\<bar>avg_drift_float ?t - 3\<bar> \<le> ((1 + unit_roundoff) ^ 3 - 1) * 3"
    using float_avg_drift_bound [OF ne pos tot mag fs, THEN conjunct1]
    unfolding S A L .
  with two_bucket_avg show ?thesis by blast
qed

text \<open>
  C7 as stated fails: for these two buckets the average computed in double
  precision is 2.9999999999999996, below the least drift of the table and not the
  quotient of the sums, which is 3.
\<close>

theorem float_avg_drift_outside:
  "avg_drift_float
     [(10, \<lparr>hr_drift_bpm = 3, hr_drift_pct = Some (3 / 140), hr_drift_ci_width = 0,
            bin_count = 52\<rparr>),
      (21 / 2, \<lparr>hr_drift_bpm = 3, hr_drift_pct = Some (3 / 150), hr_drift_ci_width = 0,
            bin_count = 199\<rparr>)] = 3 - 1 / 2 ^ 51 \<and>
   avg_drift_float
     [(10, \<lparr>hr_drift_bpm = 3, hr_drift_pct = Some (3 / 140), hr_drift_ci_width = 0,
            bin_count = 52\<rparr>),
      (21 / 2, \<lparr>hr_drift_bpm = 3, hr_drift_pct = Some (3 / 150), hr_drift_ci_width = 0,
            bin_count = 199\<rparr>)]
     < Min ((\<lambda>(pace, r). hr_drift_bpm r) `
         set [(10, \<lparr>hr_drift_bpm = 3, hr_drift_pct = Some (3 / 140), hr_drift_ci_width = 0,
                    bin_count = 52\<rparr>),
              (21 / 2, \<lparr>hr_drift_bpm = 3, hr_drift_pct = Some (3 / 150), hr_drift_ci_width = 0,
                    bin_count = 199\<rparr>)]) \<and>
   avg_drift_float
     [(10, \<lparr>hr_drift_bpm = 3, hr_drift_pct = Some (3 / 140), hr_drift_ci_width = 0,
            bin_count = 52\<rparr>),
      (21 / 2, \<lparr>hr_drift_bpm = 3, hr_drift_pct = Some (3 / 150), hr_drift_ci_width = 0,
            bin_count = 199\<rparr>)]
     \<noteq> (3 * 52 + 3 * 199) / (52 + 199)"
  unfolding avg_drift_float_def two_bucket_products
  by (simp add: bin_count_sum_def fl64_eval)

section \<open>The drift estimator\<close>

text \<open>
  C5. For a workout of n samples the two slices that are aggregated hold the rows
  with the indices from n div 4 up to, not including, n div 2, and from 3 n div 4 up
  to, not including, n, the bounds being floor divisions.
\<close>

theorem quarter_index_ranges:
  "calculate_cardiac_drift_in_bins t_ppf workout_data =
     join_dropna
       (quarter_analysis t_ppf
          (map (\<lambda>i. bin_speeds workout_data ! i)
             [length workout_data div 4 ..< length workout_data div 2]))
       (quarter_analysis t_ppf
          (map (\<lambda>i. bin_speeds workout_data ! i)
             [3 * length workout_data div 4 ..< length workout_data]))"
proof -
  let ?b = "bin_speeds workout_data"
  let ?n = "length workout_data"
  have n: "length ?b = ?n" by (rule length_bin_speeds)
  have "?n div 2 \<le> length ?b" using n by simp
  then have q2: "Q2 ?b = map (\<lambda>i. ?b ! i) [?n div 4 ..< ?n div 2]"
    using iloc_nth [of "?n div 2" ?b "?n div 4"] n by (simp add: Q2_def Let_def)
  have "iloc (3 * ?n div 4) (length ?b) ?b = map (\<lambda>i. ?b ! i) [3 * ?n div 4 ..< length ?b]"
    by (rule iloc_nth) simp
  then have q4: "Q4 ?b = map (\<lambda>i. ?b ! i) [3 * ?n div 4 ..< ?n]"
    using n by (simp add: Q4_def iloc_def Let_def)
  show ?thesis
    unfolding calculate_cardiac_drift_in_bins_def Let_def q2 q4 ..
qed

text \<open>
  C3. A bucket is a key of the drift table if and only if, in the second quarter
  and in the fourth quarter alike, it is a group of the quarter whose confidence
  width is a number below 1 and whose count is above 25. A bucket with at most one
  sample in either quarter is never a key.
\<close>

theorem reliable_in_both_quarters:
  "(k \<in> fst ` set (calculate_cardiac_drift_in_bins t_ppf w) \<longleftrightarrow>
      (k \<in> set (group_keys (Q2 (bin_speeds w))) \<and>
       (\<exists>w2. conf_interval_95_width
                (quarter_row_of t_ppf (group_hr (Q2 (bin_speeds w)) k)) = Some w2 \<and> w2 < 1) \<and>
       25 < bin_count_q (quarter_row_of t_ppf (group_hr (Q2 (bin_speeds w)) k))) \<and>
      (k \<in> set (group_keys (Q4 (bin_speeds w))) \<and>
       (\<exists>w4. conf_interval_95_width
                (quarter_row_of t_ppf (group_hr (Q4 (bin_speeds w)) k)) = Some w4 \<and> w4 < 1) \<and>
       25 < bin_count_q (quarter_row_of t_ppf (group_hr (Q4 (bin_speeds w)) k)))) \<and>
   (bin_count_q (quarter_row_of t_ppf (group_hr (Q2 (bin_speeds w)) k)) \<le> 1 \<or>
    bin_count_q (quarter_row_of t_ppf (group_hr (Q4 (bin_speeds w)) k)) \<le> 1 \<longrightarrow>
      k \<notin> fst ` set (calculate_cardiac_drift_in_bins t_ppf w))"
proof -
  let ?r2 = "quarter_row_of t_ppf (group_hr (Q2 (bin_speeds w)) k)"
  let ?r4 = "quarter_row_of t_ppf (group_hr (Q4 (bin_speeds w)) k)"
  have in2: "25 < bin_count_q (quarter_row_of t_ppf (group_hr q k)) \<Longrightarrow> k \<in> set (group_keys q)" for q
    using count_gt_in_quarter [of 25 q k] by (auto simp: bin_count_q_row set_group_keys)
  have "k \<in> fst ` set (calculate_cardiac_drift_in_bins t_ppf w) \<longleftrightarrow>
          (\<exists>d. (k, d) \<in> set (calculate_cardiac_drift_in_bins t_ppf w))"
    by force
  also have "\<dots> \<longleftrightarrow> reliable ?r2 \<and> reliable ?r4"
  proof
    assume "\<exists>d. (k, d) \<in> set (calculate_cardiac_drift_in_bins t_ppf w)"
    then show "reliable ?r2 \<and> reliable ?r4"
      by (auto simp: drift_table_entry Let_def)
  next
    assume r: "reliable ?r2 \<and> reliable ?r4"
    then obtain w2 w4 where "conf_interval_95_width ?r2 = Some w2"
      "conf_interval_95_width ?r4 = Some w4"
      by (auto simp: reliable_row_iff)
    then have "\<exists>d. merged_row ?r2 ?r4 = Some d"
      using merged_row_reliable by blast
    then show "\<exists>d. (k, d) \<in> set (calculate_cardiac_drift_in_bins t_ppf w)"
      using r by (auto simp: drift_table_entry Let_def)
  qed
  finally have key: "k \<in> fst ` set (calculate_cardiac_drift_in_bins t_ppf w) \<longleftrightarrow>
      reliable ?r2 \<and> reliable ?r4" .
  show ?thesis
    unfolding key reliable_row_iff using in2 by auto
qed

text \<open>
  A workout of 104 samples at 10.3 km/h, heart rate 140 in the first half and 145 in
  the second: bucket 10 is in the table, bucket 11 is not.
\<close>

theorem reliable_in_both_quarters_witness:
  "\<forall>t_ppf.
     10 \<in> fst ` set (calculate_cardiac_drift_in_bins t_ppf
       (replicate 52 \<lparr>hr = 140, speed = 103 / 10\<rparr> @
        replicate 52 \<lparr>hr = 145, speed = 103 / 10\<rparr>)) \<and>
     11 \<notin> fst ` set (calculate_cardiac_drift_in_bins t_ppf
       (replicate 52 \<lparr>hr = 140, speed = 103 / 10\<rparr> @
        replicate 52 \<lparr>hr = 145, speed = 103 / 10\<rparr>))"
proof (intro allI conjI)
  fix t_ppf :: "real \<Rightarrow> int \<Rightarrow> real"
  let ?w = "replicate 52 \<lparr>hr = 140, speed = 103 / 10\<rparr> @
            replicate 52 \<lparr>hr = 145, speed = 103 / 10\<rparr>"
  show "10 \<in> fst ` set (calculate_cardiac_drift_in_bins t_ppf ?w)"
    using reliable_in_both_quarters [of 10 t_ppf ?w]
    by (simp add: two_halves_Q2 two_halves_Q4 group_hr_replicate group_keys_replicate
        constant_row_26)
  show "11 \<notin> fst ` set (calculate_cardiac_drift_in_bins t_ppf ?w)"
    using reliable_in_both_quarters [of 11 t_ppf ?w]
    by (simp add: two_halves_Q2 two_halves_Q4 group_hr_replicate bin_count_q_row)
qed

text \<open>
  C4. The row of a bucket in the drift table is made of the four columns alone: the
  fourth-quarter mean less the second-quarter mean, that difference over the
  second-quarter mean, the square root of the sum of the squares of the two
  confidence widths, and the sum of the two counts. The table has one row a bucket.
\<close>

theorem drift_row_fields:
  assumes "(k, d) \<in> set (calculate_cardiac_drift_in_bins t_ppf w)"
  shows "distinct (map fst (calculate_cardiac_drift_in_bins t_ppf w)) \<and>
    (\<exists>w2 w4.
       conf_interval_95_width (quarter_row_of t_ppf (group_hr (Q2 (bin_speeds w)) k)) = Some w2 \<and>
       conf_interval_95_width (quarter_row_of t_ppf (group_hr (Q4 (bin_speeds w)) k)) = Some w4 \<and>
       d = \<lparr> hr_drift_bpm =
               hr_avg (quarter_row_of t_ppf (group_hr (Q4 (bin_speeds w)) k))
               - hr_avg (quarter_row_of t_ppf (group_hr (Q2 (bin_speeds w)) k)),
             hr_drift_pct =
               (if hr_avg (quarter_row_of t_ppf (group_hr (Q2 (bin_speeds w)) k)) = 0 then None
                else Some
                  ((hr_avg (quarter_row_of t_ppf (group_hr (Q4 (bin_speeds w)) k))
                    - hr_avg (quarter_row_of t_ppf (group_hr (Q2 (bin_speeds w)) k)))
                   / hr_avg (quarter_row_of t_ppf (group_hr (Q2 (bin_speeds w)) k)))),
             hr_drift_ci_width = sqrt (w2\<^sup>2 + w4\<^sup>2),
             bin_count =
               bin_count_q (quarter_row_of t_ppf (group_hr (Q2 (bin_speeds w)) k))
               + bin_count_q (quarter_row_of t_ppf (group_hr (Q4 (bin_speeds w)) k)) \<rparr>)"
proof -
  let ?r2 = "quarter_row_of t_ppf (group_hr (Q2 (bin_speeds w)) k)"
  let ?r4 = "quarter_row_of t_ppf (group_hr (Q4 (bin_speeds w)) k)"
  have dist: "distinct (map fst (calculate_cardiac_drift_in_bins t_ppf w))"
    unfolding calculate_cardiac_drift_in_bins_def Let_def
    by (rule distinct_join_dropna) (rule distinct_quarter_analysis)
  from assms have r: "reliable ?r2" "reliable ?r4" and m: "merged_row ?r2 ?r4 = Some d"
    by (simp_all add: drift_table_entry Let_def)
  from r obtain w2 w4 where ws: "conf_interval_95_width ?r2 = Some w2"
    "conf_interval_95_width ?r4 = Some w4"
    by (auto simp: reliable_row_iff)
  have avg: "hr_avg (quarter_row_of t_ppf hrs) = mean hrs" for hrs
    by (simp add: quarter_row_of_def)
  from merged_row_reliable [OF ws] m ws show ?thesis
    using dist by (simp add: avg bin_count_q_row)
qed

text \<open>The same workout: the row of bucket 10.\<close>

theorem drift_row_fields_witness:
  "\<forall>t_ppf.
     (10, \<lparr>hr_drift_bpm = 5, hr_drift_pct = Some (1 / 28), hr_drift_ci_width = 0,
           bin_count = 52\<rparr>)
       \<in> set (calculate_cardiac_drift_in_bins t_ppf
            (replicate 52 \<lparr>hr = 140, speed = 103 / 10\<rparr> @
             replicate 52 \<lparr>hr = 145, speed = 103 / 10\<rparr>)) \<and>
     distinct (map fst (calculate_cardiac_drift_in_bins t_ppf
            (replicate 52 \<lparr>hr = 140, speed = 103 / 10\<rparr> @
             replicate 52 \<lparr>hr = 145, speed = 103 / 10\<rparr>)))"
proof
  fix t_ppf :: "real \<Rightarrow> int \<Rightarrow> real"
  let ?w = "replicate 52 \<lparr>hr = 140, speed = 103 / 10\<rparr> @
            replicate 52 \<lparr>hr = 145, speed = 103 / 10\<rparr>"
  let ?d = "\<lparr>hr_drift_bpm = 5, hr_drift_pct = Some (1 / 28), hr_drift_ci_width = 0,
            bin_count = 52\<rparr>"
  have mem: "(10, ?d) \<in> set (calculate_cardiac_drift_in_bins t_ppf ?w)"
    using two_halves_entry [of 145 140 t_ppf] by simp
  from drift_row_fields [OF mem] mem
  show "(10, ?d) \<in> set (calculate_cardiac_drift_in_bins t_ppf ?w) \<and>
        distinct (map fst (calculate_cardiac_drift_in_bins t_ppf ?w))"
    by simp
qed

text \<open>
  C8, as the code has it. Where all the samples of a bucket in a quarter have the
  same heart rate and there are at least two of them, the standard deviation and the
  confidence width of the bucket in that quarter are 0; with at most one sample both
  are a NaN. With counts above 25 in both quarters the bucket is in the table, its
  drift is the difference of the two heart rates and its combined width is 0.
\<close>

theorem constant_bucket:
  assumes c2: "\<forall>s \<in> set (Q2 (bin_speeds w)). speed s = k \<longrightarrow> hr s = h2"
    and c4: "\<forall>s \<in> set (Q4 (bin_speeds w)). speed s = k \<longrightarrow> hr s = h4"
  shows
   "(2 \<le> bin_count_q (quarter_row_of t_ppf (group_hr (Q2 (bin_speeds w)) k)) \<longrightarrow>
       hr_stddev (quarter_row_of t_ppf (group_hr (Q2 (bin_speeds w)) k)) = Some 0 \<and>
       conf_interval_95_width (quarter_row_of t_ppf (group_hr (Q2 (bin_speeds w)) k)) = Some 0) \<and>
    (2 \<le> bin_count_q (quarter_row_of t_ppf (group_hr (Q4 (bin_speeds w)) k)) \<longrightarrow>
       hr_stddev (quarter_row_of t_ppf (group_hr (Q4 (bin_speeds w)) k)) = Some 0 \<and>
       conf_interval_95_width (quarter_row_of t_ppf (group_hr (Q4 (bin_speeds w)) k)) = Some 0) \<and>
    (bin_count_q (quarter_row_of t_ppf (group_hr (Q2 (bin_speeds w)) k)) \<le> 1 \<longrightarrow>
       hr_stddev (quarter_row_of t_ppf (group_hr (Q2 (bin_speeds w)) k)) = None \<and>
       conf_interval_95_width (quarter_row_of t_ppf (group_hr (Q2 (bin_speeds w)) k)) = None) \<and>
    (bin_count_q (quarter_row_of t_ppf (group_hr (Q4 (bin_speeds w)) k)) \<le> 1 \<longrightarrow>
       hr_stddev (quarter_row_of t_ppf (group_hr (Q4 (bin_speeds w)) k)) = None \<and>
       conf_interval_95_width (quarter_row_of t_ppf (group_hr (Q4 (bin_speeds w)) k)) = None) \<and>
    (25 < bin_count_q (quarter_row_of t_ppf (group_hr (Q2 (bin_speeds w)) k)) \<and>
     25 < bin_count_q (quarter_row_of t_ppf (group_hr (Q4 (bin_speeds w)) k)) \<longrightarrow>
       (\<exists>d. (k, d) \<in> set (calculate_cardiac_drift_in_bins t_ppf w) \<and>
            hr_drift_bpm d = h4 - h2 \<and> hr_drift_ci_width d = 0))"
proof (intro conjI impI)
  let ?g2 = "group_hr (Q2 (bin_speeds w)) k"
  let ?g4 = "group_hr (Q4 (bin_speeds w)) k"
  let ?r2 = "quarter_row_of t_ppf ?g2"
  let ?r4 = "quarter_row_of t_ppf ?g4"
  {
    assume "bin_count_q ?r2 \<le> 1"
    then show "hr_stddev ?r2 = None" and "conf_interval_95_width ?r2 = None"
      by (simp_all add: quarter_row_of_def std_def)
  }
  {
    assume "bin_count_q ?r4 \<le> 1"
    then show "hr_stddev ?r4 = None" and "conf_interval_95_width ?r4 = None"
      by (simp_all add: quarter_row_of_def std_def)
  }
  {
    assume "2 \<le> bin_count_q ?r2"
    then have n: "2 \<le> length ?g2" by (simp add: bin_count_q_row)
    show "hr_stddev ?r2 = Some 0" using c2 n by (rule constant_row(1))
    show "conf_interval_95_width ?r2 = Some 0" using c2 n by (rule constant_row(2))
  }
  {
    assume "2 \<le> bin_count_q ?r4"
    then have n: "2 \<le> length ?g4" by (simp add: bin_count_q_row)
    show "hr_stddev ?r4 = Some 0" using c4 n by (rule constant_row(1))
    show "conf_interval_95_width ?r4 = Some 0" using c4 n by (rule constant_row(2))
  }
  assume big: "25 < bin_count_q ?r2 \<and> 25 < bin_count_q ?r4"
  then have n2: "2 \<le> length ?g2" and n4: "2 \<le> length ?g4"
    by (simp_all add: bin_count_q_row)
  have w2: "conf_interval_95_width ?r2 = Some 0" using c2 n2 by (rule constant_row(2))
  have w4: "conf_interval_95_width ?r4 = Some 0" using c4 n4 by (rule constant_row(2))
  have a2: "mean ?g2 = h2" using constant_row(3) [OF c2 n2, of t_ppf] by (simp add: quarter_row_of_def)
  have a4: "mean ?g4 = h4" using constant_row(3) [OF c4 n4, of t_ppf] by (simp add: quarter_row_of_def)
  have rel: "reliable ?r2" "reliable ?r4"
    using big w2 w4 by (simp_all add: reliable_def)
  let ?d = "\<lparr> hr_drift_bpm = mean ?g4 - mean ?g2,
              hr_drift_pct = (if mean ?g2 = 0 then None else Some ((mean ?g4 - mean ?g2) / mean ?g2)),
              hr_drift_ci_width = sqrt (0\<^sup>2 + 0\<^sup>2),
              bin_count = length ?g2 + length ?g4 \<rparr>"
  have m: "merged_row ?r2 ?r4 = Some ?d" using w2 w4 by (rule merged_row_reliable)
  have "(k, ?d) \<in> set (calculate_cardiac_drift_in_bins t_ppf w)"
    using rel m by (simp add: drift_table_entry Let_def)
  moreover have "hr_drift_bpm ?d = h4 - h2" by (simp add: a2 a4)
  moreover have "hr_drift_ci_width ?d = 0" by simp
  ultimately show "\<exists>d. (k, d) \<in> set (calculate_cardiac_drift_in_bins t_ppf w) \<and>
            hr_drift_bpm d = h4 - h2 \<and> hr_drift_ci_width d = 0"
    by blast
qed

text \<open>The same workout: a drift of 5 for bucket 10.\<close>

theorem constant_bucket_witness:
  "\<forall>t_ppf. \<exists>d.
     (10, d) \<in> set (calculate_cardiac_drift_in_bins t_ppf
        (replicate 52 \<lparr>hr = 140, speed = 103 / 10\<rparr> @
         replicate 52 \<lparr>hr = 145, speed = 103 / 10\<rparr>)) \<and>
     hr_drift_bpm d = 5 \<and> hr_drift_ci_width d = 0"
proof
  fix t_ppf :: "real \<Rightarrow> int \<Rightarrow> real"
  let ?w = "replicate 52 \<lparr>hr = 140, speed = 103 / 10\<rparr> @
            replicate 52 \<lparr>hr = 145, speed = 103 / 10\<rparr>"
  have c2: "\<forall>s \<in> set (Q2 (bin_speeds ?w)). speed s = 10 \<longrightarrow> hr s = 140"
    by (simp add: two_halves_Q2)
  have c4: "\<forall>s \<in> set (Q4 (bin_speeds ?w)). speed s = 10 \<longrightarrow> hr s = 145"
    by (simp add: two_halves_Q4)
  from constant_bucket [OF c2 c4, of t_ppf]
  show "\<exists>d. (10, d) \<in> set (calculate_cardiac_drift_in_bins t_ppf ?w) \<and>
     hr_drift_bpm d = 5 \<and> hr_drift_ci_width d = 0"
    by (simp add: two_halves_Q2 two_halves_Q4 group_hr_replicate bin_count_q_row)
qed

text \<open>
  C8 as stated fails for a bucket with one sample in a quarter: in a workout of four
  samples the second quarter is the sample of index 1, and the standard deviation of
  its bucket is a NaN, not 0.
\<close>

theorem single_sample_bucket:
  "group_hr (Q2 (bin_speeds (replicate 4 \<lparr>hr = 140, speed = 103 / 10\<rparr>))) 10 = [140] \<and>
   std (group_hr (Q2 (bin_speeds (replicate 4 \<lparr>hr = 140, speed = 103 / 10\<rparr>))) 10) = None \<and>
   std (group_hr (Q2 (bin_speeds (replicate 4 \<lparr>hr = 140, speed = 103 / 10\<rparr>))) 10) \<noteq> Some 0"
  by (simp add: bin_speeds_def Q2_def iloc_def Let_def group_hr_def speed_bin_example std_def)

section \<open>The duration string\<close>

text \<open>
  C6, as the code has it. A string HH:MM:SS of two decimal digits a field gives the
  hours times 60 plus the minutes, the seconds left out. The format is not checked:
  a string with no colon raises (the ValueError of \<^verbatim>\<open>int\<close> if there is one,
  IndexError otherwise); any other string is read by its first two fields alone,
  each through \<^verbatim>\<open>int\<close>, and what follows the second colon is not looked at.
\<close>

theorem duration_minutes:
  "(is_digit h1 \<and> is_digit h2 \<and> is_digit m1 \<and> is_digit m2 \<and> is_digit s1 \<and> is_digit s2 \<longrightarrow>
      get_minutes_from_duration_string [h1, h2, CHR '':'', m1, m2, CHR '':'', s1, s2] =
        Inr (int (10 * digit_val h1 + digit_val h2) * 60 + int (10 * digit_val m1 + digit_val m2))) \<and>
   (CHR '':'' \<notin> set s \<longrightarrow>
      get_minutes_from_duration_string s =
        (case py_int s of Inl e \<Rightarrow> Inl e | Inr a \<Rightarrow> Inl IndexError)) \<and>
   (CHR '':'' \<notin> set h \<and> CHR '':'' \<notin> set m \<longrightarrow>
      get_minutes_from_duration_string (h @ CHR '':'' # m) =
        (case py_int h of
           Inl e \<Rightarrow> Inl e
         | Inr a \<Rightarrow> (case py_int m of Inl e \<Rightarrow> Inl e | Inr b \<Rightarrow> Inr (a * 60 + b))) \<and>
      get_minutes_from_duration_string (h @ CHR '':'' # m @ CHR '':'' # rest) =
        get_minutes_from_duration_string (h @ CHR '':'' # m))"
proof (intro conjI impI)
  assume d: "is_digit h1 \<and> is_digit h2 \<and> is_digit m1 \<and> is_digit m2 \<and> is_digit s1 \<and> is_digit s2"
  then have "CHR '':'' \<notin> set [h1, h2]" "CHR '':'' \<notin> set [m1, m2]"
    using is_digit_not_sign by auto
  then have "get_minutes_from_duration_string ([h1, h2] @ CHR '':'' # [m1, m2] @ CHR '':'' # [s1, s2]) =
     (case py_int [h1, h2] of
        Inl e \<Rightarrow> Inl e
      | Inr a \<Rightarrow> (case py_int [m1, m2] of Inl e \<Rightarrow> Inl e | Inr b \<Rightarrow> Inr (a * 60 + b)))"
    by (rule get_minutes_more_fields)
  then show "get_minutes_from_duration_string [h1, h2, CHR '':'', m1, m2, CHR '':'', s1, s2] =
        Inr (int (10 * digit_val h1 + digit_val h2) * 60 + int (10 * digit_val m1 + digit_val m2))"
    using d by (simp add: py_int_two_digits)
next
  assume "CHR '':'' \<notin> set s"
  then show "get_minutes_from_duration_string s =
        (case py_int s of Inl e \<Rightarrow> Inl e | Inr a \<Rightarrow> Inl IndexError)"
    by (rule get_minutes_no_colon)
next
  assume a: "CHR '':'' \<notin> set h \<and> CHR '':'' \<notin> set m"
  then show "get_minutes_from_duration_string (h @ CHR '':'' # m) =
        (case py_int h of
           Inl e \<Rightarrow> Inl e
         | Inr a \<Rightarrow> (case py_int m of Inl e \<Rightarrow> Inl e | Inr b \<Rightarrow> Inr (a * 60 + b)))"
    by (simp add: get_minutes_two_fields)
  from a show "get_minutes_from_duration_string (h @ CHR '':'' # m @ CHR '':'' # rest) =
        get_minutes_from_duration_string (h @ CHR '':'' # m)"
    by (simp add: get_minutes_two_fields get_minutes_more_fields)
qed

text \<open>"01:52:34" is 112 minutes, "0152" raises, and "01:52:xx" is read as "01:52" is.\<close>

theorem duration_minutes_witness:
  "get_minutes_from_duration_string ''01:52:34'' = Inr 112 \<and>
   get_minutes_from_duration_string ''0152'' = Inl IndexError \<and>
   get_minutes_from_duration_string ''01:52:xx'' = get_minutes_from_duration_string ''01:52''"
  using
    duration_minutes [where ?h1.0 = "CHR ''0''" and ?h2.0 = "CHR ''1''" and ?m1.0 = "CHR ''5''"
      and ?m2.0 = "CHR ''2''" and ?s1.0 = "CHR ''3''" and ?s2.0 = "CHR ''4''"
      and s = "''0152''" and h = "''01''" and m = "''52''" and rest = "''xx''"]
  by (simp add: is_digit_def digit_val_def py_int_def strip_def is_space_def decimal_def)

text \<open>
  C6 as stated fails: strings that are not of the form HH:MM:SS are given a value,
  not a parsing failure.
\<close>

theorem duration_format_unchecked:
  "get_minutes_from_duration_string ''01:52:xx'' = Inr 112 \<and>
   get_minutes_from_duration_string ''01:52'' = Inr 112 \<and>
   get_minutes_from_duration_string ''-1:75:0:0'' = Inr 15"
  by (simp add: get_minutes_from_duration_string_def py_int_def strip_def is_space_def
      is_digit_def decimal_def digit_val_def)

section \<open>The history file\<close>

text \<open>
  C9. Saving a decision appends it to the stored history and leaves the stored
  entries as they were: where the file does not exist the new history holds the
  decision alone, where it holds an array the new array is the old one followed by
  the decision, and a second save after a first into no file leaves the two
  decisions in order; no other path is touched.
\<close>

theorem save_appends_one:
  "(fs p = None \<longrightarrow>
      save_decision_to_json d p fs =
        Inr (fs(p \<mapsto> JsonList [d]), ''Changes were saved to '' @ p)) \<and>
   (fs p = Some (JsonList h) \<longrightarrow>
      save_decision_to_json d p fs =
        Inr (fs(p \<mapsto> JsonList (h @ [d])), ''Changes were saved to '' @ p) \<and>
      length (h @ [d]) = length h + 1 \<and>
      take (length h) (h @ [d]) = h \<and>
      last (h @ [d]) = d) \<and>
   (fs p = None \<and> save_decision_to_json d p fs = Inr (fs1, out1) \<longrightarrow>
      (\<exists>fs2 out2. save_decision_to_json d' p fs1 = Inr (fs2, out2) \<and>
         fs2 p = Some (JsonList [d, d']) \<and> (\<forall>q. q \<noteq> p \<longrightarrow> fs2 q = fs q)))"
  by (auto simp: save_decision_to_json_def)


text \<open>A first save into no file, then a second one.\<close>

theorem save_appends_one_witness:
  "save_decision_to_json ''first'' ''workout_history.json'' Map.empty =
     Inr ([''workout_history.json'' \<mapsto> JsonList [''first'']],
          ''Changes were saved to workout_history.json'') \<and>
   save_decision_to_json ''second'' ''workout_history.json''
       [''workout_history.json'' \<mapsto> JsonList [''first'']] =
     Inr ([''workout_history.json'' \<mapsto> JsonList [''first'', ''second'']],
          ''Changes were saved to workout_history.json'')"
  using save_appends_one [where fs = "Map.empty" and p = "''workout_history.json''"
      and d = "''first''"]
    save_appends_one [where fs = "[''workout_history.json'' \<mapsto> JsonList [''first'']]"
      and p = "''workout_history.json''" and h = "[''first'']" and d = "''second''"]
  by simp

end
